theory Spec2Isabelle
  imports Complex_Main "HOL-Library.Sublist"
begin

section \<open>Forensic Pulse: response mapper, graph model builder, simulation overlay\<close>

text \<open>
  A shallow embedding of the client-side projection code: the mappers of
  \<^verbatim>\<open>data/mappers.ts\<close>, the element construction and simulation overlay of
  \<^verbatim>\<open>components/NetworkGraph.tsx\<close>, the derivation of the entities in \<^verbatim>\<open>App.tsx\<close>
  and the submit handler of \<^verbatim>\<open>components/SimulatorPanel.tsx\<close>.

  A JavaScript \<^verbatim>\<open>number\<close> is modelled as a \<^typ>\<open>real\<close>: arithmetic is exact, and
  neither the rounding of doubles nor NaN and the infinities (which \<^verbatim>\<open>JSON.parse\<close>
  returns for a numeral such as \<^verbatim>\<open>1e999\<close>) are represented. No property below
  rests on the value of an arithmetic expression: numbers are copied and compared,
  and expressions are evaluated only at the example inputs, where the doubles give
  the same results. A \<^verbatim>\<open>string\<close> is a \<^typ>\<open>string\<close>.
  Field names are those of the source; where two interfaces share a field name, or
  a name is taken in HOL (\<^verbatim>\<open>id\<close>), the field carries a short prefix.
\<close>

subsection \<open>Backend response types (\<^verbatim>\<open>api.ts\<close>)\<close>

record ApiSummary =
  total_accounts_analyzed :: real
  suspicious_accounts_flagged :: real
  fraud_rings_detected :: real
  processing_time_seconds :: real
  total_transactions :: real
  total_nodes :: real
  total_edges :: real
  circular_loops_found :: real
  smurfing_patterns_found :: real
  layering_chains_found :: real
  total_fraud_rings :: real
  high_risk_accounts :: real
  medium_risk_accounts :: real
  total_flagged_amount :: real

record ApiSuspiciousAccount =
  account_id :: string
  sa_suspicion_score :: real
  detected_patterns :: "string list"
  sa_ring_id :: string
  sa_in_degree :: real
  sa_out_degree :: real
  sa_total_volume :: real
  sa_transaction_count :: real
  ring_count :: real
  pattern_types :: "string list"
  merchant_factor :: real

record ApiFraudRing =
  ring_id :: string
  pattern_type :: string
  member_accounts :: "string list"
  member_count :: real
  risk_score :: real
  ring_total_amount :: real
  ring_edges :: "(string \<times> string) list"
  center_node :: "string option"

record ApiGraphNode =
  node_id :: string
  node_suspicious :: bool
  suspicion_score :: real
  in_degree :: real
  out_degree :: real
  ring_ids :: "string list"
  total_volume :: real
  transaction_count :: real

record ApiGraphEdge =
  edge_source :: string
  edge_target :: string
  edge_suspicious :: bool
  total_amount :: real
  edge_count :: real

record ApiGraph =
  nodes :: "ApiGraphNode list"
  edges :: "ApiGraphEdge list"

text \<open>
  The interface \<^verbatim>\<open>AnalysisResponse\<close> declares its four members as required, but
  the value is whatever \<^verbatim>\<open>response.json()\<close> parsed. A member that the payload
  lacks reads as \<^verbatim>\<open>undefined\<close>; that is \<^term>\<open>None\<close> here.
\<close>

record AnalysisResponse =
  suspicious_accounts :: "ApiSuspiciousAccount list option"
  fraud_rings :: "ApiFraudRing list option"
  summary :: "ApiSummary option"
  graph :: "ApiGraph option"

subsection \<open>Frontend entity types (\<^verbatim>\<open>data/mockData.ts\<close>)\<close>

datatype Direction = DirIn | DirOut

datatype Status = Active | Frozen | Investigation

record Connection =
  targetId :: string
  direction :: Direction
  amount :: real

record BehavioralDna =
  velocity :: real
  amtVariance :: real
  fanSymmetry :: real
  temporalCluster :: real
  hopDepth :: real
  amtDecay :: real

record NetworkStats =
  totalIn :: real
  totalOut :: real
  txCount :: real
  avgHoldTime :: real

record Account =
  acc_id :: string
  suspicionScore :: real
  inDegree :: real
  outDegree :: real
  volume :: real
  patterns :: "string list"
  status :: Status
  ringId :: "string option"
  behavioralDna :: BehavioralDna
  networkStats :: NetworkStats
  connections :: "Connection list"

record FraudRing =
  fr_id :: string
  patternType :: string
  memberCount :: real
  riskScore :: real
  accountIds :: "string list"

record Transaction =
  tx_id :: string
  tx_source :: string
  tx_target :: string
  tx_amount :: real
  timestamp :: string
  isFraud :: bool

text \<open>Reading a property of \<^verbatim>\<open>undefined\<close>, or iterating it, throws a TypeError.\<close>

datatype error = TypeError

subsection \<open>JavaScript library functions used by the mappers\<close>

definition Math_round :: "real \<Rightarrow> real" where
  \<comment> \<open>\<^verbatim>\<open>Math.round\<close>: the nearest integer, a tie going up.\<close>
  "Math_round x = of_int \<lfloor>x + 1 / 2\<rfloor>"

definition js_rem :: "real \<Rightarrow> real \<Rightarrow> real" where
  \<comment> \<open>\<^verbatim>\<open>x % y\<close>: the remainder of the truncated quotient; it has the sign of \<open>x\<close>.\<close>
  "js_rem x y = x - y * of_int (if 0 \<le> x / y then \<lfloor>x / y\<rfloor> else \<lceil>x / y\<rceil>)"

definition toFixed1 :: "real \<Rightarrow> real" where
  \<comment> \<open>\<^verbatim>\<open>Number(x.toFixed(1))\<close>: \<open>x\<close> to one decimal, the larger candidate on a tie.\<close>
  "toFixed1 x = of_int \<lfloor>x * 10 + 1 / 2\<rfloor> / 10"

function nat_toString :: "nat \<Rightarrow> string" where
  "nat_toString n =
     (if n < 10 then [''0123456789'' ! n]
      else nat_toString (n div 10) @ [''0123456789'' ! (n mod 10)])"
  by pat_completeness auto
termination
  by (relation "measure (\<lambda>n. n)") auto

declare nat_toString.simps [simp del]

definition padStart :: "nat \<Rightarrow> char \<Rightarrow> string \<Rightarrow> string" where
  "padStart n c s = replicate (n - length s) c @ s"

subsection \<open>The mappers (\<^verbatim>\<open>data/mappers.ts\<close>)\<close>

definition PATTERN_MAP :: "(string \<times> string) list" where
  "PATTERN_MAP =
     [(''cycle'', ''Circular Loop''),
      (''fan_in'', ''Smurfing Fan-in''),
      (''fan_out'', ''Smurfing Fan-out''),
      (''layering'', ''Layering'')]"

definition mapPatternType :: "string \<Rightarrow> string" where
  \<comment> \<open>\<^verbatim>\<open>PATTERN_MAP[backendType] || backendType\<close>; the four values are non-empty,
      hence truthy. Keys inherited from \<^verbatim>\<open>Object.prototype\<close> are not modelled.\<close>
  "mapPatternType backendType =
     (case map_of PATTERN_MAP backendType of Some p \<Rightarrow> p | None \<Rightarrow> backendType)"

definition accountScoreMapOf ::
    "ApiSuspiciousAccount list \<Rightarrow> (string \<rightharpoonup> ApiSuspiciousAccount)" where
  \<comment> \<open>\<^verbatim>\<open>new Map(suspicious_accounts.map(a => [a.account_id, a]))\<close>: a later entry
      with the same key replaces an earlier one.\<close>
  "accountScoreMapOf sas = foldl (\<lambda>m a. m(account_id a \<mapsto> a)) Map.empty sas"

definition pushConnection ::
    "(string \<rightharpoonup> Connection list) \<Rightarrow> string \<Rightarrow> Connection \<Rightarrow> (string \<rightharpoonup> Connection list)" where
  \<comment> \<open>\<^verbatim>\<open>if (!m.has(k)) m.set(k, []); m.get(k)!.push(c)\<close>\<close>
  "pushConnection m k c =
     (let m1 = (if m k = None then m(k \<mapsto> []) else m)
      in case m1 k of Some cs \<Rightarrow> m1(k \<mapsto> cs @ [c]) | None \<Rightarrow> m1)"

definition addEdge ::
    "(string \<rightharpoonup> Connection list) \<Rightarrow> ApiGraphEdge \<Rightarrow> (string \<rightharpoonup> Connection list)" where
  "addEdge m edge =
     (let m1 = pushConnection m (edge_source edge)
                 \<lparr>targetId = edge_target edge, direction = DirOut, amount = total_amount edge\<rparr>
      in pushConnection m1 (edge_target edge)
           \<lparr>targetId = edge_source edge, direction = DirIn, amount = total_amount edge\<rparr>)"

definition connectionsMapOf :: "ApiGraphEdge list \<Rightarrow> (string \<rightharpoonup> Connection list)" where
  "connectionsMapOf es = foldl addEdge Map.empty es"

definition addRing :: "(string \<rightharpoonup> string) \<Rightarrow> ApiFraudRing \<Rightarrow> (string \<rightharpoonup> string)" where
  "addRing m ring =
     foldl (\<lambda>m memberId. if m memberId = None then m(memberId \<mapsto> ring_id ring) else m)
       m (member_accounts ring)"

definition nodeRingMapOf :: "ApiFraudRing list \<Rightarrow> (string \<rightharpoonup> string)" where
  "nodeRingMapOf rings = foldl addRing Map.empty rings"

definition mapNode ::
    "(string \<rightharpoonup> ApiSuspiciousAccount) \<Rightarrow> (string \<rightharpoonup> Connection list) \<Rightarrow>
     (string \<rightharpoonup> string) \<Rightarrow> real \<Rightarrow> ApiGraphNode \<Rightarrow> Account" where
  \<comment> \<open>The callback of \<^verbatim>\<open>graph.nodes.map\<close>; \<open>random\<close> is what its one call of
      \<^verbatim>\<open>Math.random()\<close> returns.\<close>
  "mapNode accountScoreMap connectionsMap nodeRingMap random node =
     (let acct = accountScoreMap (node_id node);
          conns = (case connectionsMap (node_id node) of Some cs \<Rightarrow> cs | None \<Rightarrow> []);
          total_in = foldl (\<lambda>sum c. sum + amount c) 0 (filter (\<lambda>c. direction c = DirIn) conns);
          total_out = foldl (\<lambda>sum c. sum + amount c) 0 (filter (\<lambda>c. direction c = DirOut) conns);
          score = (case acct of Some a \<Rightarrow> sa_suspicion_score a | None \<Rightarrow> suspicion_score node)
      in \<lparr>acc_id = node_id node,
          suspicionScore = score,
          inDegree = in_degree node,
          outDegree = out_degree node,
          volume = total_volume node,
          patterns = (case acct of Some a \<Rightarrow> detected_patterns a | None \<Rightarrow> []),
          status = Active,
          ringId = nodeRingMap (node_id node),
          behavioralDna =
            \<lparr>velocity = min 100 (Math_round
                 (transaction_count node / max 1 (in_degree node + out_degree node) * 20)),
             amtVariance = min 100 (Math_round (js_rem (total_volume node / 10000) 100)),
             fanSymmetry =
               (if in_degree node + out_degree node > 0
                then Math_round (\<bar>in_degree node - out_degree node\<bar>
                       / (in_degree node + out_degree node) * 100)
                else 0),
             temporalCluster = min 100 (Math_round (score * (8 / 10))),
             hopDepth = min 100
               (if length (ring_ids node) > 0 then 60 + Math_round (score * (4 / 10))
                else Math_round (score * (3 / 10))),
             amtDecay = min 100 (Math_round
               (if total_volume node > 0 then total_out / max 1 (total_volume node) * 100
                else 0))\<rparr>,
          networkStats =
            \<lparr>totalIn = Math_round total_in,
             totalOut = Math_round total_out,
             txCount = transaction_count node,
             avgHoldTime = toFixed1 (random * 24 + 1)\<rparr>,
          connections = conns\<rparr>)"

definition mapApiToAccounts :: "(nat \<Rightarrow> real) \<Rightarrow> AnalysisResponse \<Rightarrow> error + Account list" where
  \<comment> \<open>\<open>random i\<close> is the value of the call of \<^verbatim>\<open>Math.random()\<close> made for node \<open>i\<close>.\<close>
  "mapApiToAccounts random response =
     (case suspicious_accounts response of
        None \<Rightarrow> Inl TypeError
      | Some sas \<Rightarrow>
     (case graph response of
        None \<Rightarrow> Inl TypeError
      | Some g \<Rightarrow>
     (case fraud_rings response of
        None \<Rightarrow> Inl TypeError
      | Some rings \<Rightarrow>
          (let accountScoreMap = accountScoreMapOf sas;
               connectionsMap = connectionsMapOf (edges g);
               nodeRingMap = nodeRingMapOf rings
           in Inr (map (\<lambda>(i, node).
                     mapNode accountScoreMap connectionsMap nodeRingMap (random i) node)
                   (enumerate 0 (nodes g)))))))"

definition mapRing :: "ApiFraudRing \<Rightarrow> FraudRing" where
  "mapRing ring =
     \<lparr>fr_id = ring_id ring,
      patternType = mapPatternType (pattern_type ring),
      memberCount = member_count ring,
      riskScore = risk_score ring,
      accountIds = member_accounts ring\<rparr>"

definition mapApiToRings :: "AnalysisResponse \<Rightarrow> error + FraudRing list" where
  "mapApiToRings response =
     (case fraud_rings response of
        None \<Rightarrow> Inl TypeError
      | Some rings \<Rightarrow> Inr (map mapRing rings))"

definition mapEdge :: "string \<Rightarrow> nat \<Rightarrow> ApiGraphEdge \<Rightarrow> Transaction" where
  \<comment> \<open>\<open>now\<close> is what \<^verbatim>\<open>new Date().toISOString()\<close> returns in this callback.\<close>
  "mapEdge now i edge =
     \<lparr>tx_id = ''TX_'' @ padStart 6 (CHR ''0'') (nat_toString i),
      tx_source = edge_source edge,
      tx_target = edge_target edge,
      tx_amount = total_amount edge,
      timestamp = now,
      isFraud = edge_suspicious edge\<rparr>"

definition mapApiToTransactions ::
    "(nat \<Rightarrow> string) \<Rightarrow> AnalysisResponse \<Rightarrow> error + Transaction list" where
  \<comment> \<open>\<open>clock i\<close> is the reading of the clock in the callback for edge \<open>i\<close>.\<close>
  "mapApiToTransactions clock response =
     (case graph response of
        None \<Rightarrow> Inl TypeError
      | Some g \<Rightarrow> Inr (map (\<lambda>(i, edge). mapEdge (clock i) i edge) (enumerate 0 (edges g))))"

subsection \<open>Deriving the entities (\<^verbatim>\<open>App.tsx\<close>, \<^verbatim>\<open>components/UploadScreen.tsx\<close>)\<close>


definition deriveEntities ::
    "(nat \<Rightarrow> real) \<Rightarrow> (nat \<Rightarrow> string) \<Rightarrow> AnalysisResponse option \<Rightarrow>
     error + (Account list \<times> FraudRing list \<times> Transaction list)" where
  \<comment> \<open>The three \<^verbatim>\<open>useMemo\<close> calls of \<^verbatim>\<open>App\<close>, in their order; an exception in one
      of them ends the render.\<close>
  "deriveEntities random clock analysisResponse =
     (case analysisResponse of
        None \<Rightarrow> Inr ([], [], [])
      | Some response \<Rightarrow>
     (case mapApiToAccounts random response of
        Inl e \<Rightarrow> Inl e
      | Inr accounts \<Rightarrow>
     (case mapApiToRings response of
        Inl e \<Rightarrow> Inl e
      | Inr rings \<Rightarrow>
     (case mapApiToTransactions clock response of
        Inl e \<Rightarrow> Inl e
      | Inr transactions \<Rightarrow> Inr (accounts, rings, transactions)))))"


subsection \<open>Simulation types (\<^verbatim>\<open>api.ts\<close>)\<close>

record HypotheticalTx =
  sender_id :: string
  receiver_id :: string
  hyp_amount :: real
  hyp_timestamp :: string

datatype Verdict = DANGEROUS | WARNING | SUSPICIOUS | CLEAN

record SimulationCycle =
  cycle_members :: "string list"
  cycle_length :: real
  cycle_risk_score :: real

datatype ImpactType = Joins | Merges | Escalates

record RingAffected =
  ra_ring_id :: string
  impact_type :: ImpactType
  old_risk_score :: real
  new_risk_score :: real
  ra_delta :: real
  description :: string

record RingMerged =
  ring_a :: string
  ring_b :: string
  merged_member_count :: real
  merged_risk_score :: real

record ScoreDelta =
  sd_account_id :: string
  old_score :: real
  new_score :: real
  delta :: real
  delta_reason :: string

record SubgraphDelta =
  nodes_affected :: real
  edges_added :: real
  new_nodes_introduced :: real

record SimulationResult =
  simulation_id :: string
  hypothetical_tx :: HypotheticalTx
  verdict :: Verdict
  verdict_reason :: string
  new_cycles_created :: "SimulationCycle list"
  rings_affected :: "RingAffected list"
  rings_merged :: "RingMerged list"
  score_deltas :: "ScoreDelta list"
  new_smurfing_triggered :: bool
  smurfing_account :: "string option"
  new_shell_chain_extended :: bool
  chain_extension_detail :: "string option"
  subgraph_delta :: SubgraphDelta
  processing_time_ms :: real

subsection \<open>Graph elements and simulation overlay (\<^verbatim>\<open>components/NetworkGraph.tsx\<close>)\<close>

text \<open>
  An element is \<^verbatim>\<open>{ data, classes }\<close>; the data of a node is
  \<^verbatim>\<open>{ id, risk, ringId, label }\<close>, that of an edge \<^verbatim>\<open>{ id, source, target, isFraud }\<close>.
  \<^verbatim>\<open>classes\<close> is one string, the class names separated by spaces.
\<close>

datatype ElementData =
    NodeData (el_id: string) (risk: real) (el_ringId: "string option") (label: string)
  | EdgeData (el_id: string) (el_source: string) (el_target: string) (el_isFraud: bool)

record Element =
  data :: ElementData
  classes :: string

definition truthy :: "string option \<Rightarrow> bool" where
  \<comment> \<open>An optional string as a condition: \<^verbatim>\<open>undefined\<close> and \<^verbatim>\<open>''\<close> are falsy.\<close>
  "truthy s = (case s of None \<Rightarrow> False | Some v \<Rightarrow> v \<noteq> [])"

definition slice_last :: "nat \<Rightarrow> string \<Rightarrow> string" where
  \<comment> \<open>\<^verbatim>\<open>s.slice(-n)\<close>\<close>
  "slice_last n s = drop (length s - n) s"

definition activeAccountsOf :: "bool \<Rightarrow> Account list \<Rightarrow> Account list" where
  "activeAccountsOf filterRingsOnly accounts =
     (if filterRingsOnly then filter (\<lambda>a. truthy (ringId a)) accounts else accounts)"

definition hasAccount :: "Account list \<Rightarrow> string \<Rightarrow> bool" where
  \<comment> \<open>\<^verbatim>\<open>activeAccounts.find(a => a.id === x)\<close> as a condition: an account is truthy.\<close>
  "hasAccount activeAccounts x = (find (\<lambda>a. acc_id a = x) activeAccounts \<noteq> None)"

definition activeTransactionsOf :: "Account list \<Rightarrow> Transaction list \<Rightarrow> Transaction list" where
  "activeTransactionsOf activeAccounts transactions =
     filter (\<lambda>t. hasAccount activeAccounts (tx_source t) \<and> hasAccount activeAccounts (tx_target t))
       transactions"

definition nodeElement :: "Account \<Rightarrow> Element" where
  "nodeElement a =
     \<lparr>data = NodeData (acc_id a) (suspicionScore a) (ringId a) (slice_last 6 (acc_id a)),
      classes = (if truthy (ringId a) then ''ring-member''
                 else if suspicionScore a > 50 then ''suspicious'' else ''clean'')\<rparr>"

definition edgeElement :: "Transaction \<Rightarrow> Element" where
  "edgeElement t =
     \<lparr>data = EdgeData (tx_id t) (tx_source t) (tx_target t) (isFraud t),
      classes = (if isFraud t then ''fraud-edge'' else ''normal-edge'')\<rparr>"

definition baseElements :: "Account list \<Rightarrow> Transaction list \<Rightarrow> Element list" where
  "baseElements activeAccounts activeTransactions =
     map nodeElement activeAccounts @ map edgeElement activeTransactions"

definition simNode :: "string \<Rightarrow> Element" where
  "simNode x = \<lparr>data = NodeData x 0 None (slice_last 6 x), classes = ''sim-node''\<rparr>"

definition simEdge :: "HypotheticalTx \<Rightarrow> Element" where
  "simEdge tx =
     \<lparr>data = EdgeData ''SIM_EDGE'' (sender_id tx) (receiver_id tx) False,
      classes = ''sim-edge''\<rparr>"

definition markElement :: "string set \<Rightarrow> string set \<Rightarrow> Element \<Rightarrow> Element" where
  \<comment> \<open>The body of the loop \<^verbatim>\<open>for (const el of elements)\<close>. \<^verbatim>\<open>el.classes || ''\<close> is
      \<^verbatim>\<open>el.classes\<close>, also when that is the empty string.\<close>
  "markElement affectedIds cycleIds el =
     (let el1 = (if el_id (data el) \<noteq> [] \<and> el_id (data el) \<in> affectedIds
                 then el\<lparr>classes := classes el @ '' sim-affected''\<rparr> else el)
      in if el_id (data el1) \<noteq> [] \<and> el_id (data el1) \<in> cycleIds
         then el1\<lparr>classes := classes el1 @ '' sim-cycle''\<rparr> else el1)"

definition simulationOverlay ::
    "Account list \<Rightarrow> Element list \<Rightarrow> SimulationResult option \<Rightarrow> Element list" where
  \<comment> \<open>The block \<^verbatim>\<open>if (simulationResult) { ... }\<close>, with the element list it extends
      and retags returned.\<close>
  "simulationOverlay activeAccounts elements simulationResult =
     (case simulationResult of
        None \<Rightarrow> elements
      | Some sim \<Rightarrow>
          (let tx = hypothetical_tx sim;
               affectedIds = set (map sd_account_id (score_deltas sim));
               cycleIds = set (concat (map cycle_members (new_cycles_created sim)));
               elements1 = (if \<not> hasAccount activeAccounts (sender_id tx)
                            then elements @ [simNode (sender_id tx)] else elements);
               elements2 = (if \<not> hasAccount activeAccounts (receiver_id tx)
                            then elements1 @ [simNode (receiver_id tx)] else elements1);
               elements3 = elements2 @ [simEdge tx]
           in map (markElement affectedIds cycleIds) elements3))"

definition networkElements ::
    "Account list \<Rightarrow> Transaction list \<Rightarrow> bool \<Rightarrow> SimulationResult option \<Rightarrow> Element list" where
  \<comment> \<open>The \<^verbatim>\<open>elements\<close> that the effect of \<^verbatim>\<open>NetworkGraph\<close> hands to cytoscape.\<close>
  "networkElements accounts transactions filterRingsOnly simulationResult =
     (let activeAccounts = activeAccountsOf filterRingsOnly accounts;
          activeTransactions = activeTransactionsOf activeAccounts transactions;
          elements = baseElements activeAccounts activeTransactions
      in simulationOverlay activeAccounts elements simulationResult)"

subsection \<open>Submitting a simulation (\<^verbatim>\<open>components/SimulatorPanel.tsx\<close>)\<close>

text \<open>
  The state is the part of the panel's state that \<^verbatim>\<open>runSimulation\<close> reads or
  writes. \<^verbatim>\<open>parseFloat\<close> is a parameter: \<^term>\<open>None\<close> is NaN. The engine behind
  \<^verbatim>\<open>simulateTransaction\<close> is a parameter too: it answers a request with a result or
  with the message of the error thrown. The effects of a call are returned as a
  list, in the order they happen.
\<close>

record HistoryEntry =
  he_sender :: string
  he_receiver :: string
  he_amount :: "real option"
  he_result :: SimulationResult

record SimulatorState =
  sender :: string
  receiver :: string
  amountText :: string
  timestampText :: string
  loading :: bool
  errorText :: "string option"
  result :: "SimulationResult option"
  history :: "HistoryEntry list"

record SimulateRequest =
  req_sender_id :: string
  req_receiver_id :: string
  req_amount :: "real option"
  req_timestamp :: "string option"

datatype Effect = PostSimulate SimulateRequest | OnSimulationResult SimulationResult

definition is_space :: "char \<Rightarrow> bool" where
  \<comment> \<open>The white space of ASCII: tab, line feed, vertical tab, form feed, carriage
      return, space. The white space beyond ASCII that \<^verbatim>\<open>trim\<close> also removes is not
      modelled.\<close>
  "is_space c = (c \<in> set [CHR 0x09, CHR 0x0A, CHR 0x0B, CHR 0x0C, CHR 0x0D, CHR 0x20])"

definition trim :: "string \<Rightarrow> string" where
  "trim s = rev (dropWhile is_space (rev (dropWhile is_space s)))"

definition canSubmit :: "(string \<Rightarrow> real option) \<Rightarrow> SimulatorState \<Rightarrow> bool" where
  \<comment> \<open>\<^verbatim>\<open>sender.trim() && receiver.trim() && parseFloat(amount) > 0\<close> as a condition.\<close>
  "canSubmit parseFloat st =
     (trim (sender st) \<noteq> [] \<and> trim (receiver st) \<noteq> [] \<and>
      (case parseFloat (amountText st) of None \<Rightarrow> False | Some v \<Rightarrow> v > 0))"

definition runSimulation ::
    "(string \<Rightarrow> real option) \<Rightarrow> (SimulateRequest \<Rightarrow> string + SimulationResult) \<Rightarrow>
     SimulatorState \<Rightarrow> SimulatorState \<times> Effect list" where
  "runSimulation parseFloat engine st =
     (if \<not> canSubmit parseFloat st then (st, [])
      else
        (let st1 = st\<lparr>loading := True, errorText := None\<rparr>;
             req = \<lparr>req_sender_id = trim (sender st),
                    req_receiver_id = trim (receiver st),
                    req_amount = parseFloat (amountText st),
                    req_timestamp =
                      (if timestampText st = [] then None else Some (timestampText st))\<rparr>
         in case engine req of
              Inr res \<Rightarrow>
                (st1\<lparr>result := Some res,
                     history := take 5
                       (\<lparr>he_sender = trim (sender st), he_receiver = trim (receiver st),
                         he_amount = parseFloat (amountText st), he_result = res\<rparr>
                        # history st1),
                     loading := False\<rparr>,
                 [PostSimulate req, OnSimulationResult res])
            | Inl msg \<Rightarrow>
                (st1\<lparr>errorText := Some msg, loading := False\<rparr>, [PostSimulate req])))"

subsection \<open>The mappers on a store\<close>

text \<open>
  The mappers once more, with the arrays as cells of a store, to follow what they
  write. \<^verbatim>\<open>mappers.ts\<close> assigns to no property and calls two methods that mutate
  their receiver: \<^verbatim>\<open>Map.set\<close>, on the maps that \<^verbatim>\<open>mapApiToAccounts\<close> creates, and
  \<^verbatim>\<open>Array.push\<close>, on what \<^verbatim>\<open>connectionsMap.get\<close> returns. The store is the list of
  all arrays; the address of an array is its index, and the array literal \<^verbatim>\<open>[]\<close>
  adds a cell. An array may hold strings and connections alike, as at run time.
  The arrays that \<^verbatim>\<open>map\<close> and \<^verbatim>\<open>filter\<close> return are not pushed to and are left out.

  The response is read by value. Of its arrays, the results share
  \<^verbatim>\<open>detected_patterns\<close> (as \<^verbatim>\<open>patterns\<close>) and \<^verbatim>\<open>member_accounts\<close> (as \<^verbatim>\<open>accountIds\<close>);
  \<open>ResponseRefs\<close> gives their addresses, in the order of \<^verbatim>\<open>suspicious_accounts\<close> and of
  \<^verbatim>\<open>fraud_rings\<close>. An account is returned as the addresses of its two arrays, a ring
  as the address of its \<^verbatim>\<open>accountIds\<close>; a transaction holds no array.
\<close>

datatype val = Str string | Conn Connection

type_synonym addr = nat

type_synonym store = "val list list"

definition alloc :: "store \<Rightarrow> store \<times> addr" where
  \<comment> \<open>The array literal \<^verbatim>\<open>[]\<close>: a new, empty cell.\<close>
  "alloc h = (h @ [[]], length h)"

definition push :: "store \<Rightarrow> addr \<Rightarrow> val \<Rightarrow> store" where
  \<comment> \<open>\<^verbatim>\<open>a.push(v)\<close>, on whatever array is at the address.\<close>
  "push h a v = (if a < length h then h[a := h ! a @ [v]] else h)"

record ResponseRefs =
  detected_patterns_refs :: "addr list"
  member_accounts_refs :: "addr list"

record AccountRefs =
  patterns_ref :: addr
  connections_ref :: addr

definition pushConnection_st ::
    "(string \<rightharpoonup> addr) \<times> store \<Rightarrow> string \<Rightarrow> Connection \<Rightarrow> (string \<rightharpoonup> addr) \<times> store" where
  \<comment> \<open>\<^verbatim>\<open>if (!m.has(k)) m.set(k, []); m.get(k)!.push(c)\<close>, the map holding addresses.\<close>
  "pushConnection_st mh k c =
     (case mh of (m, h) \<Rightarrow>
        (case (if m k = None then (case alloc h of (h', a) \<Rightarrow> (m(k \<mapsto> a), h')) else (m, h)) of
           (m1, h1) \<Rightarrow>
             (case m1 k of Some a \<Rightarrow> (m1, push h1 a (Conn c)) | None \<Rightarrow> (m1, h1))))"

definition addEdge_st ::
    "(string \<rightharpoonup> addr) \<times> store \<Rightarrow> ApiGraphEdge \<Rightarrow> (string \<rightharpoonup> addr) \<times> store" where
  "addEdge_st mh edge =
     (let mh1 = pushConnection_st mh (edge_source edge)
                  \<lparr>targetId = edge_target edge, direction = DirOut, amount = total_amount edge\<rparr>
      in pushConnection_st mh1 (edge_target edge)
           \<lparr>targetId = edge_source edge, direction = DirIn, amount = total_amount edge\<rparr>)"

definition connectionsMapOf_st :: "store \<Rightarrow> ApiGraphEdge list \<Rightarrow> (string \<rightharpoonup> addr) \<times> store" where
  "connectionsMapOf_st h es = foldl addEdge_st (Map.empty, h) es"

definition accountRefMapOf :: "ApiSuspiciousAccount list \<Rightarrow> addr list \<Rightarrow> (string \<rightharpoonup> addr)" where
  \<comment> \<open>\<^verbatim>\<open>accountScoreMap\<close>, read for the address of \<^verbatim>\<open>detected_patterns\<close>.\<close>
  "accountRefMapOf sas refs =
     foldl (\<lambda>m (a, r). m(account_id a \<mapsto> r)) Map.empty (zip sas refs)"

definition mapNode_st ::
    "(string \<rightharpoonup> addr) \<Rightarrow> (string \<rightharpoonup> addr) \<Rightarrow> store \<Rightarrow> ApiGraphNode \<Rightarrow> store \<times> AccountRefs" where
  \<comment> \<open>\<^verbatim>\<open>connectionsMap.get(node.id) || []\<close>, then
      \<^verbatim>\<open>acct?.detected_patterns ?? []\<close>: an array that is there is shared, one that
      is not is created.\<close>
  "mapNode_st patternsMap connectionsMap h node =
     (case (case connectionsMap (node_id node) of Some a \<Rightarrow> (h, a) | None \<Rightarrow> alloc h) of
        (h1, conns) \<Rightarrow>
          (case (case patternsMap (node_id node) of Some a \<Rightarrow> (h1, a) | None \<Rightarrow> alloc h1) of
             (h2, pats) \<Rightarrow> (h2, \<lparr>patterns_ref = pats, connections_ref = conns\<rparr>)))"

fun mapNodes_st ::
    "(string \<rightharpoonup> addr) \<Rightarrow> (string \<rightharpoonup> addr) \<Rightarrow> store \<Rightarrow> ApiGraphNode list \<Rightarrow>
     store \<times> AccountRefs list" where
  "mapNodes_st patternsMap connectionsMap h [] = (h, [])"
| "mapNodes_st patternsMap connectionsMap h (node # ns) =
     (case mapNode_st patternsMap connectionsMap h node of
        (h1, r) \<Rightarrow>
          (case mapNodes_st patternsMap connectionsMap h1 ns of
             (h2, rs) \<Rightarrow> (h2, r # rs)))"

definition mapApiToAccounts_st ::
    "store \<Rightarrow> AnalysisResponse \<Rightarrow> ResponseRefs \<Rightarrow> error + (store \<times> AccountRefs list)" where
  "mapApiToAccounts_st h response refs =
     (case suspicious_accounts response of
        None \<Rightarrow> Inl TypeError
      | Some sas \<Rightarrow>
     (case graph response of
        None \<Rightarrow> Inl TypeError
      | Some g \<Rightarrow>
     (case fraud_rings response of
        None \<Rightarrow> Inl TypeError
      | Some rings \<Rightarrow>
          (let patternsMap = accountRefMapOf sas (detected_patterns_refs refs)
           in case connectionsMapOf_st h (edges g) of
                (connectionsMap, h1) \<Rightarrow> Inr (mapNodes_st patternsMap connectionsMap h1 (nodes g))))))"

definition mapApiToRings_st ::
    "store \<Rightarrow> AnalysisResponse \<Rightarrow> ResponseRefs \<Rightarrow> error + (store \<times> addr list)" where
  \<comment> \<open>\<^verbatim>\<open>accountIds: ring.member_accounts\<close>: the array of the response itself.\<close>
  "mapApiToRings_st h response refs =
     (case fraud_rings response of
        None \<Rightarrow> Inl TypeError
      | Some rings \<Rightarrow> Inr (h, map snd (zip rings (member_accounts_refs refs))))"

definition mapApiToTransactions_st :: "store \<Rightarrow> AnalysisResponse \<Rightarrow> error + store" where
  "mapApiToTransactions_st h response =
     (case graph response of None \<Rightarrow> Inl TypeError | Some g \<Rightarrow> Inr h)"

text \<open>
  What relates the store to the maps of the mappers above: every address in the
  connection map is one of a cell made in this call and holds the connections of its
  key, no two keys share a cell, and the cells of the \<^verbatim>\<open>detected_patterns\<close> hold the
  patterns of the response.
\<close>

definition fresh_from :: "nat \<Rightarrow> (string \<rightharpoonup> addr) \<Rightarrow> bool" where
  "fresh_from n m = (\<forall>k a. m k = Some a \<longrightarrow> n \<le> a)"

definition conn_sim ::
    "nat \<Rightarrow> (string \<rightharpoonup> Connection list) \<Rightarrow> (string \<rightharpoonup> addr) \<Rightarrow> store \<Rightarrow> bool" where
  "conn_sim n mp m h =
     ((\<forall>k. case m k of
             None \<Rightarrow> mp k = None
           | Some a \<Rightarrow> n \<le> a \<and> a < length h \<and> (\<exists>cs. mp k = Some cs \<and> h ! a = map Conn cs)) \<and>
      (\<forall>k k' a. m k = Some a \<and> m k' = Some a \<longrightarrow> k = k'))"

definition pat_sim ::
    "store \<Rightarrow> (string \<rightharpoonup> ApiSuspiciousAccount) \<Rightarrow> (string \<rightharpoonup> addr) \<Rightarrow> bool" where
  "pat_sim h sm pm =
     (\<forall>k. case pm k of
            None \<Rightarrow> sm k = None
          | Some a \<Rightarrow> a < length h \<and>
              (\<exists>acct. sm k = Some acct \<and> h ! a = map Str (detected_patterns acct)))"

definition refs_hold :: "store \<Rightarrow> ApiSuspiciousAccount list \<Rightarrow> addr list \<Rightarrow> bool" where
  "refs_hold h sas refs =
     (length refs = length sas \<and>
      list_all (\<lambda>(a, r). r < length h \<and> h ! r = map Str (detected_patterns a)) (zip sas refs))"

subsection \<open>Reading the entities\<close>

text \<open>The entries that one edge contributes to the connection list kept under \<open>k\<close>.\<close>

definition edge_connections :: "string \<Rightarrow> ApiGraphEdge \<Rightarrow> Connection list" where
  "edge_connections k e =
     (if edge_source e = k
      then [\<lparr>targetId = edge_target e, direction = DirOut, amount = total_amount e\<rparr>] else [])
     @ (if edge_target e = k
        then [\<lparr>targetId = edge_source e, direction = DirIn, amount = total_amount e\<rparr>] else [])"

text \<open>\<^verbatim>\<open>connectionsMap.get(k) || []\<close>\<close>

definition conns_at :: "(string \<rightharpoonup> Connection list) \<Rightarrow> string \<Rightarrow> Connection list" where
  "conns_at m k = (case m k of Some cs \<Rightarrow> cs | None \<Rightarrow> [])"

definition edge_triple :: "ApiGraphEdge \<Rightarrow> string \<times> string \<times> real" where
  "edge_triple e = (edge_source e, edge_target e, total_amount e)"

definition within_0_100 :: "real \<Rightarrow> bool" where
  "within_0_100 x = (0 \<le> x \<and> x \<le> 100)"

text \<open>An account without its hold time, a transaction without its timestamp.\<close>

definition erase_avgHoldTime :: "Account \<Rightarrow> Account" where
  "erase_avgHoldTime a = a\<lparr>networkStats := (networkStats a)\<lparr>avgHoldTime := 0\<rparr>\<rparr>"

definition erase_timestamp :: "Transaction \<Rightarrow> Transaction" where
  "erase_timestamp t = t\<lparr>timestamp := []\<rparr>"

subsection \<open>Reading an element list\<close>

definition node_ids :: "Element list \<Rightarrow> string set" where
  \<comment> \<open>The ids of the node elements of a list.\<close>
  "node_ids els = set (map (\<lambda>e. el_id (data e)) (filter (\<lambda>e. is_NodeData (data e)) els))"

subsection \<open>Example inputs\<close>

text \<open>
  The scenario of the specification: two nodes \<open>A\<close> and \<open>B\<close>, one edge from \<open>A\<close> to
  \<open>B\<close> of amount 1000, and a ring \<open>R1\<close> with the single member \<open>A\<close>; a second ring
  lists \<open>A\<close> again.
\<close>

definition example_summary :: ApiSummary where
  "example_summary =
     \<lparr>total_accounts_analyzed = 2, suspicious_accounts_flagged = 1, fraud_rings_detected = 2,
      processing_time_seconds = 1, total_transactions = 5, total_nodes = 2, total_edges = 1,
      circular_loops_found = 2, smurfing_patterns_found = 0, layering_chains_found = 0,
      total_fraud_rings = 2, high_risk_accounts = 1, medium_risk_accounts = 0,
      total_flagged_amount = 1000\<rparr>"

definition example_node :: "string \<Rightarrow> real \<Rightarrow> real \<Rightarrow> real \<Rightarrow> ApiGraphNode" where
  "example_node i s d_in d_out =
     \<lparr>node_id = i, node_suspicious = False, suspicion_score = s, in_degree = d_in,
      out_degree = d_out, ring_ids = [], total_volume = 1000, transaction_count = 5\<rparr>"

definition example_ring :: "string \<Rightarrow> string list \<Rightarrow> ApiFraudRing" where
  "example_ring r ms =
     \<lparr>ring_id = r, pattern_type = ''cycle'', member_accounts = ms,
      member_count = real (length ms), risk_score = 90, ring_total_amount = 1000,
      ring_edges = [], center_node = None\<rparr>"

definition example_edge :: "string \<Rightarrow> string \<Rightarrow> real \<Rightarrow> ApiGraphEdge" where
  "example_edge s t a =
     \<lparr>edge_source = s, edge_target = t, edge_suspicious = True, total_amount = a,
      edge_count = 1\<rparr>"

definition example_rings :: "ApiFraudRing list" where
  "example_rings = [example_ring ''R1'' [''A''], example_ring ''R2'' [''C'', ''A'']]"

definition example_graph :: ApiGraph where
  "example_graph =
     \<lparr>nodes = [example_node ''A'' 80 0 5, example_node ''B'' 10 5 0],
      edges = [example_edge ''A'' ''B'' 1000]\<rparr>"

definition example_response :: AnalysisResponse where
  "example_response =
     \<lparr>suspicious_accounts = Some [], fraud_rings = Some example_rings,
      summary = Some example_summary, graph = Some example_graph\<rparr>"

definition example_account_A :: Account where
  "example_account_A =
     \<lparr>acc_id = ''A'', suspicionScore = 80, inDegree = 0, outDegree = 5, volume = 1000,
      patterns = [], status = Active, ringId = Some ''R1'',
      behavioralDna =
        \<lparr>velocity = 20, amtVariance = 0, fanSymmetry = 100, temporalCluster = 64,
         hopDepth = 24, amtDecay = 100\<rparr>,
      networkStats = \<lparr>totalIn = 0, totalOut = 1000, txCount = 5, avgHoldTime = 1\<rparr>,
      connections = [\<lparr>targetId = ''B'', direction = DirOut, amount = 1000\<rparr>]\<rparr>"

definition example_account_B :: Account where
  "example_account_B =
     \<lparr>acc_id = ''B'', suspicionScore = 10, inDegree = 5, outDegree = 0, volume = 1000,
      patterns = [], status = Active, ringId = None,
      behavioralDna =
        \<lparr>velocity = 20, amtVariance = 0, fanSymmetry = 100, temporalCluster = 8,
         hopDepth = 3, amtDecay = 0\<rparr>,
      networkStats = \<lparr>totalIn = 1000, totalOut = 0, txCount = 5, avgHoldTime = 1\<rparr>,
      connections = [\<lparr>targetId = ''A'', direction = DirIn, amount = 1000\<rparr>]\<rparr>"

definition example_transaction :: Transaction where
  "example_transaction =
     \<lparr>tx_id = ''TX_000000'', tx_source = ''A'', tx_target = ''B'', tx_amount = 1000,
      timestamp = ''2026-01-01T00:00:00.000Z'', isFraud = True\<rparr>"

text \<open>
  The simulation scenario of the specification: a hypothetical transaction of 500 from
  \<open>A\<close> to an account \<open>C\<close> that the graph does not have, with a score delta for \<open>A\<close>.
\<close>

definition example_accounts :: "Account list" where
  "example_accounts = [example_account_A, example_account_B]"

definition example_simulation :: SimulationResult where
  "example_simulation =
     \<lparr>simulation_id = ''SIM_1'',
      hypothetical_tx =
        \<lparr>sender_id = ''A'', receiver_id = ''C'', hyp_amount = 500,
         hyp_timestamp = ''2026-01-01T00:00:00''\<rparr>,
      verdict = WARNING, verdict_reason = ''joins ring R1'',
      new_cycles_created = [], rings_affected = [], rings_merged = [],
      score_deltas =
        [\<lparr>sd_account_id = ''A'', old_score = 80, new_score = 85, delta = 5,
          delta_reason = ''new counterparty''\<rparr>],
      new_smurfing_triggered = False, smurfing_account = None,
      new_shell_chain_extended = False, chain_extension_detail = None,
      subgraph_delta = \<lparr>nodes_affected = 1, edges_added = 1, new_nodes_introduced = 1\<rparr>,
      processing_time_ms = 3\<rparr>"

definition example_parseFloat :: "string \<Rightarrow> real option" where
  "example_parseFloat s = (if s = ''500'' then Some 500 else None)"

definition example_form :: "string \<Rightarrow> string \<Rightarrow> string \<Rightarrow> SimulatorState" where
  "example_form s r a =
     \<lparr>sender = s, receiver = r, amountText = a, timestampText = [], loading = False,
      errorText = None, result = None, history = []\<rparr>"

text \<open>Two runs of the random number generator and of the clock.\<close>

definition example_random :: "nat \<Rightarrow> real" where
  "example_random i = 0"

definition example_random_half :: "nat \<Rightarrow> real" where
  "example_random_half i = 1 / 2"

definition example_clock :: "nat \<Rightarrow> string" where
  "example_clock i = ''2026-01-01T00:00:00.000Z''"

definition example_clock_later :: "nat \<Rightarrow> string" where
  "example_clock_later i = ''2026-01-01T00:00:05.000Z''"

definition example_fraud_rings :: "FraudRing list" where
  "example_fraud_rings =
     [\<lparr>fr_id = ''R1'', patternType = ''Circular Loop'', memberCount = 1, riskScore = 90,
       accountIds = [''A'']\<rparr>,
      \<lparr>fr_id = ''R2'', patternType = ''Circular Loop'', memberCount = 2, riskScore = 90,
       accountIds = [''C'', ''A'']\<rparr>]"

text \<open>A response that lists the edge from \<open>A\<close> to \<open>B\<close> twice, and what it is mapped to.\<close>

definition duplicate_edge_response :: AnalysisResponse where
  "duplicate_edge_response =
     \<lparr>suspicious_accounts = Some [], fraud_rings = Some [],
      summary = Some example_summary,
      graph = Some \<lparr>nodes = [example_node ''A'' 80 0 5, example_node ''B'' 10 5 0],
                    edges = [example_edge ''A'' ''B'' 10, example_edge ''A'' ''B'' 10]\<rparr>\<rparr>"

definition duplicate_edge_account_A :: Account where
  "duplicate_edge_account_A =
     \<lparr>acc_id = ''A'', suspicionScore = 80, inDegree = 0, outDegree = 5, volume = 1000,
      patterns = [], status = Active, ringId = None,
      behavioralDna =
        \<lparr>velocity = 20, amtVariance = 0, fanSymmetry = 100, temporalCluster = 64,
         hopDepth = 24, amtDecay = 2\<rparr>,
      networkStats = \<lparr>totalIn = 0, totalOut = 20, txCount = 5, avgHoldTime = 1\<rparr>,
      connections = [\<lparr>targetId = ''B'', direction = DirOut, amount = 10\<rparr>,
                     \<lparr>targetId = ''B'', direction = DirOut, amount = 10\<rparr>]\<rparr>"

definition duplicate_edge_account_B :: Account where
  "duplicate_edge_account_B =
     \<lparr>acc_id = ''B'', suspicionScore = 10, inDegree = 5, outDegree = 0, volume = 1000,
      patterns = [], status = Active, ringId = None,
      behavioralDna =
        \<lparr>velocity = 20, amtVariance = 0, fanSymmetry = 100, temporalCluster = 8,
         hopDepth = 3, amtDecay = 0\<rparr>,
      networkStats = \<lparr>totalIn = 20, totalOut = 0, txCount = 5, avgHoldTime = 1\<rparr>,
      connections = [\<lparr>targetId = ''A'', direction = DirIn, amount = 10\<rparr>,
                     \<lparr>targetId = ''A'', direction = DirIn, amount = 10\<rparr>]\<rparr>"

definition duplicate_edge_transaction :: "string \<Rightarrow> Transaction" where
  "duplicate_edge_transaction i =
     \<lparr>tx_id = i, tx_source = ''A'', tx_target = ''B'', tx_amount = 10,
      timestamp = ''2026-01-01T00:00:00.000Z'', isFraud = True\<rparr>"

text \<open>A response whose one node has a score of 150, and what it is mapped to.\<close>

definition out_of_range_response :: AnalysisResponse where
  "out_of_range_response =
     \<lparr>suspicious_accounts = Some [], fraud_rings = Some [],
      summary = Some example_summary,
      graph = Some \<lparr>nodes = [example_node ''A'' 150 0 5], edges = []\<rparr>\<rparr>"

definition out_of_range_account :: Account where
  "out_of_range_account =
     \<lparr>acc_id = ''A'', suspicionScore = 150, inDegree = 0, outDegree = 5, volume = 1000,
      patterns = [], status = Active, ringId = None,
      behavioralDna =
        \<lparr>velocity = 20, amtVariance = 0, fanSymmetry = 100, temporalCluster = 100,
         hopDepth = 45, amtDecay = 0\<rparr>,
      networkStats = \<lparr>totalIn = 0, totalOut = 0, txCount = 5, avgHoldTime = 1\<rparr>,
      connections = []\<rparr>"

text \<open>A store for the example response: the \<^verbatim>\<open>member_accounts\<close> of its two rings.\<close>

definition example_store :: store where
  "example_store = [[Str ''A''], [Str ''C'', Str ''A'']]"

definition example_refs :: ResponseRefs where
  "example_refs = \<lparr>detected_patterns_refs = [], member_accounts_refs = [0, 1]\<rparr>"

section \<open>Properties\<close>

lemmas mapper_defs =
  mapApiToAccounts_def mapApiToTransactions_def mapApiToRings_def mapRing_def mapEdge_def
  accountScoreMapOf_def connectionsMapOf_def nodeRingMapOf_def addRing_def addEdge_def
  pushConnection_def mapNode_def Let_def enumerate_eq_zip Math_round_def js_rem_def
  toFixed1_def padStart_def nat_toString.simps mapPatternType_def PATTERN_MAP_def
  eval_nat_numeral

lemmas example_defs =
  example_response_def example_graph_def example_rings_def example_node_def
  example_ring_def example_edge_def

subsection \<open>The example, evaluated\<close>

lemma example_accounts:
  "mapApiToAccounts example_random example_response = Inr [example_account_A, example_account_B]"
  by (simp add: mapper_defs example_defs example_random_def example_account_A_def
      example_account_B_def)

lemma example_transactions:
  "mapApiToTransactions example_clock example_response = Inr [example_transaction]"
  by (simp add: mapper_defs example_defs example_clock_def example_transaction_def)

lemma example_rings: "mapApiToRings example_response = Inr example_fraud_rings"
  by (simp add: mapper_defs example_defs example_fraud_rings_def)


subsection \<open>Ring membership index\<close>

lemma addRing_lookup:
  "addRing m ring k =
     (case m k of
        Some v \<Rightarrow> Some v
      | None \<Rightarrow> if k \<in> set (member_accounts ring) then Some (ring_id ring) else None)"
proof -
  have "foldl (\<lambda>m memberId. if m memberId = None then m(memberId \<mapsto> r) else m) m ms k =
          (case m k of Some v \<Rightarrow> Some v | None \<Rightarrow> if k \<in> set ms then Some r else None)"
    for r ms
    by (induction ms arbitrary: m) (auto split: option.splits)
  then show ?thesis
    by (simp add: addRing_def)
qed

lemma foldl_addRing_lookup:
  "foldl addRing m rings k =
     (case m k of
        Some v \<Rightarrow> Some v
      | None \<Rightarrow> map_option ring_id (find (\<lambda>ring. k \<in> set (member_accounts ring)) rings))"
  by (induction rings arbitrary: m) (auto simp: addRing_lookup split: option.splits)

lemma nodeRingMapOf_lookup:
  "nodeRingMapOf rings k =
     map_option ring_id (find (\<lambda>ring. k \<in> set (member_accounts ring)) rings)"
  by (simp add: nodeRingMapOf_def foldl_addRing_lookup)

lemma mapNode_ringId [simp]: "ringId (mapNode sm cm rm rnd node) = rm (node_id node)"
  by (simp add: mapNode_def Let_def)

lemma mapNode_acc_id [simp]: "acc_id (mapNode sm cm rm rnd node) = node_id node"
  by (simp add: mapNode_def Let_def)

lemma mapApiToAccounts_Inr:
  assumes "mapApiToAccounts random response = Inr accounts"
  obtains sas g rings where
    "suspicious_accounts response = Some sas" "graph response = Some g"
    "fraud_rings response = Some rings"
    "accounts = map (\<lambda>(i, node). mapNode (accountScoreMapOf sas) (connectionsMapOf (edges g))
                        (nodeRingMapOf rings) (random i) node) (enumerate 0 (nodes g))"
  using assms by (auto simp: mapApiToAccounts_def Let_def split: option.splits)

text \<open>
  C4. The ring id of a projected account is the \<^verbatim>\<open>ring_id\<close> of the first ring of the
  response's \<^verbatim>\<open>fraud_rings\<close>, in list order, whose \<^verbatim>\<open>member_accounts\<close> contains the
  account's id, and an account that no ring lists has no ring id.
\<close>

theorem ringId_first_listing_ring:
  assumes "mapApiToAccounts random response = Inr accounts"
    and "fraud_rings response = Some rings"
    and "a \<in> set accounts"
  shows "ringId a =
           map_option ring_id (find (\<lambda>ring. acc_id a \<in> set (member_accounts ring)) rings)"
using assms(1)
proof (rule mapApiToAccounts_Inr)
  fix sas g rings'
  assume r: "fraud_rings response = Some rings'"
    and acc: "accounts = map (\<lambda>(i, node). mapNode (accountScoreMapOf sas)
                (connectionsMapOf (edges g)) (nodeRingMapOf rings') (random i) node)
                (enumerate 0 (nodes g))"
  from r assms(2) have [simp]: "rings' = rings" by simp
  from assms(3) acc obtain i node where
    "a = mapNode (accountScoreMapOf sas) (connectionsMapOf (edges g)) (nodeRingMapOf rings)
           (random i) node"
    by auto
  then show ?thesis
    by (simp add: nodeRingMapOf_lookup)
qed

theorem ringId_first_listing_ring_witness:
  "mapApiToAccounts example_random example_response
     = Inr [example_account_A, example_account_B] \<and>
   fraud_rings example_response = Some example_rings \<and>
   example_account_A \<in> set [example_account_A, example_account_B] \<and>
   ringId example_account_A = Some (ring_id (example_rings ! 0)) \<and>
   acc_id example_account_A \<in> set (member_accounts (example_rings ! 1))"
proof -
  have h2: "fraud_rings example_response = Some example_rings"
    by (simp add: example_response_def)
  have h3: "example_account_A \<in> set [example_account_A, example_account_B]"
    by simp
  have "ringId example_account_A = Some (ring_id (example_rings ! 0))"
    using ringId_first_listing_ring [OF example_accounts h2 h3]
    by (simp add: example_defs example_account_A_def)
  then show ?thesis
    using example_accounts h2 by (simp add: example_defs example_account_A_def)
qed

subsection \<open>Simulation overlay\<close>

lemmas graph_defs =
  networkElements_def activeAccountsOf_def activeTransactionsOf_def hasAccount_def
  baseElements_def nodeElement_def edgeElement_def simulationOverlay_def markElement_def
  simNode_def simEdge_def truthy_def slice_last_def node_ids_def Let_def

lemmas example_graph_defs =
  example_accounts_def example_account_A_def example_account_B_def example_transaction_def
  example_simulation_def

lemma markElement_data [simp]: "data (markElement A C e) = data e"
  by (simp add: markElement_def Let_def)

lemma markElement_classes:
  "classes (markElement A C e) =
     classes e @ (if el_id (data e) \<noteq> [] \<and> el_id (data e) \<in> A then '' sim-affected'' else [])
               @ (if el_id (data e) \<noteq> [] \<and> el_id (data e) \<in> C then '' sim-cycle'' else [])"
  by (simp add: markElement_def Let_def)

lemma markElement_suffix:
  "\<exists>sfx \<in> {[], '' sim-affected'', '' sim-cycle'', '' sim-affected sim-cycle''}.
     classes (markElement A C e) = classes e @ sfx"
  by (simp add: markElement_classes)

lemma hasAccount_iff: "hasAccount as x \<longleftrightarrow> x \<in> acc_id ` set as"
  by (auto simp: hasAccount_def find_None_iff)

lemma simulationOverlay_Some:
  "simulationOverlay act els (Some sim) =
     map (markElement (set (map sd_account_id (score_deltas sim)))
                      (set (concat (map cycle_members (new_cycles_created sim)))))
       (els @ (if hasAccount act (sender_id (hypothetical_tx sim)) then []
               else [simNode (sender_id (hypothetical_tx sim))])
            @ (if hasAccount act (receiver_id (hypothetical_tx sim)) then []
               else [simNode (receiver_id (hypothetical_tx sim))])
            @ [simEdge (hypothetical_tx sim)])"
  by (simp add: simulationOverlay_def Let_def)

text \<open>
  C2. The overlay is not destructive. With no simulation result the element list is
  returned as it is. With a simulation result, every element of the input list is at
  its position in the output, with its data unchanged, and its class string is the
  old one followed by nothing, by \<open>sim-affected\<close>, by \<open>sim-cycle\<close> or by both: the base
  class is neither removed nor replaced.
\<close>

theorem overlay_non_destructive:
  "simulationOverlay activeAccounts elements None = elements \<and>
   length elements \<le> length (simulationOverlay activeAccounts elements (Some sim)) \<and>
   (\<forall>i < length elements.
      data (simulationOverlay activeAccounts elements (Some sim) ! i) = data (elements ! i) \<and>
      (\<exists>sfx \<in> {[], '' sim-affected'', '' sim-cycle'', '' sim-affected sim-cycle''}.
         classes (simulationOverlay activeAccounts elements (Some sim) ! i)
           = classes (elements ! i) @ sfx))"
proof (intro conjI allI impI)
  show "simulationOverlay activeAccounts elements None = elements"
    by (simp add: simulationOverlay_def)
  show "length elements \<le> length (simulationOverlay activeAccounts elements (Some sim))"
    by (simp add: simulationOverlay_Some)
next
  fix i assume i: "i < length elements"
  then have nth: "simulationOverlay activeAccounts elements (Some sim) ! i =
      markElement (set (map sd_account_id (score_deltas sim)))
                  (set (concat (map cycle_members (new_cycles_created sim)))) (elements ! i)"
    by (simp add: simulationOverlay_Some nth_append)
  show "data (simulationOverlay activeAccounts elements (Some sim) ! i) = data (elements ! i)"
    by (simp add: nth)
  show "\<exists>sfx \<in> {[], '' sim-affected'', '' sim-cycle'', '' sim-affected sim-cycle''}.
         classes (simulationOverlay activeAccounts elements (Some sim) ! i)
           = classes (elements ! i) @ sfx"
    unfolding nth by (rule markElement_suffix)
qed

theorem overlay_non_destructive_witness:
  "(0::nat) < length (baseElements example_accounts [example_transaction]) \<and>
   data (simulationOverlay example_accounts
           (baseElements example_accounts [example_transaction]) (Some example_simulation) ! 0)
     = NodeData ''A'' 80 (Some ''R1'') ''A'' \<and>
   classes (baseElements example_accounts [example_transaction] ! 0) = ''ring-member'' \<and>
   classes (simulationOverlay example_accounts
           (baseElements example_accounts [example_transaction]) (Some example_simulation) ! 0)
     = ''ring-member sim-affected''"
proof -
  have len: "(0::nat) < length (baseElements example_accounts [example_transaction])"
    by (simp add: baseElements_def example_accounts_def)
  have "data (simulationOverlay example_accounts
           (baseElements example_accounts [example_transaction]) (Some example_simulation) ! 0)
     = data (baseElements example_accounts [example_transaction] ! 0)"
    using overlay_non_destructive
      [of example_accounts "baseElements example_accounts [example_transaction]"
          example_simulation] len
    by blast
  then show ?thesis
    by (simp add: graph_defs example_graph_defs)
qed

subsection \<open>Graph model builder\<close>

lemma nodeElement_data [simp]:
  "data (nodeElement a) = NodeData (acc_id a) (suspicionScore a) (ringId a) (slice_last 6 (acc_id a))"
  by (simp add: nodeElement_def)

lemma edgeElement_data [simp]:
  "data (edgeElement t) = EdgeData (tx_id t) (tx_source t) (tx_target t) (isFraud t)"
  by (simp add: edgeElement_def)

lemma simNode_data [simp]: "data (simNode x) = NodeData x 0 None (slice_last 6 x)"
  by (simp add: simNode_def)

lemma simEdge_data [simp]:
  "data (simEdge tx) = EdgeData ''SIM_EDGE'' (sender_id tx) (receiver_id tx) False"
  by (simp add: simEdge_def)

lemma node_ids_Nil [simp]: "node_ids [] = {}"
  by (simp add: node_ids_def)

lemma node_ids_append [simp]: "node_ids (xs @ ys) = node_ids xs \<union> node_ids ys"
  by (simp add: node_ids_def)

lemma node_ids_map_mark [simp]: "node_ids (map (markElement A C) els) = node_ids els"
  by (induction els) (simp_all add: node_ids_def)

lemma node_ids_nodes [simp]: "node_ids (map nodeElement as) = acc_id ` set as"
  by (induction as) (simp_all add: node_ids_def)

lemma node_ids_edges [simp]: "node_ids (map edgeElement ts) = {}"
  by (induction ts) (simp_all add: node_ids_def)

lemma node_ids_base: "node_ids (baseElements act txs) = acc_id ` set act"
  by (simp add: baseElements_def)

lemma node_ids_single [simp]: "node_ids [e] = (if is_NodeData (data e) then {el_id (data e)} else {})"
  by (simp add: node_ids_def)

lemma node_ids_overlay:
  "node_ids (simulationOverlay act (baseElements act txs) (Some sim)) =
     acc_id ` set act \<union> {sender_id (hypothetical_tx sim), receiver_id (hypothetical_tx sim)}"
  by (auto simp: simulationOverlay_Some node_ids_base hasAccount_iff)

lemma edge_in_overlay:
  assumes "e \<in> set (simulationOverlay act (baseElements act txs) (Some sim))"
    and "data e = EdgeData i s t f"
  shows "(\<exists>tx \<in> set txs. s = tx_source tx \<and> t = tx_target tx) \<or>
         (s = sender_id (hypothetical_tx sim) \<and> t = receiver_id (hypothetical_tx sim))"
  using assms
  by (auto simp: simulationOverlay_Some baseElements_def split: if_splits)

text \<open>
  C6. The element list never holds a dangling edge: the source and the target of every
  edge element are ids of node elements of the same list, whatever the accounts, the
  transactions, the filter and the simulation result (with none, the list is the
  builder's). With the filter on and no simulation, the node elements are exactly
  those of the accounts whose ring id is a non-empty string, in their order.
\<close>

theorem no_dangling_edge:
  "(\<forall>e \<in> set (networkElements accounts transactions filterRingsOnly simulationResult).
      \<forall>i s t f. data e = EdgeData i s t f \<longrightarrow>
        s \<in> node_ids (networkElements accounts transactions filterRingsOnly simulationResult) \<and>
        t \<in> node_ids (networkElements accounts transactions filterRingsOnly simulationResult)) \<and>
   filter (\<lambda>e. is_NodeData (data e)) (networkElements accounts transactions True None)
     = map nodeElement (filter (\<lambda>a. \<exists>r. ringId a = Some r \<and> r \<noteq> []) accounts)"
proof (intro conjI ballI allI impI)
  fix e i s t f
  assume e: "e \<in> set (networkElements accounts transactions filterRingsOnly simulationResult)"
    and d: "data e = EdgeData i s t f"
  define act where "act = activeAccountsOf filterRingsOnly accounts"
  define txs where "txs = activeTransactionsOf act transactions"
  have ne: "networkElements accounts transactions filterRingsOnly simulationResult
              = simulationOverlay act (baseElements act txs) simulationResult"
    by (simp add: networkElements_def act_def txs_def Let_def)
  have txs: "\<And>tx. tx \<in> set txs \<Longrightarrow> tx_source tx \<in> acc_id ` set act \<and> tx_target tx \<in> acc_id ` set act"
    by (simp add: txs_def activeTransactionsOf_def hasAccount_iff)
  have "s \<in> node_ids (simulationOverlay act (baseElements act txs) simulationResult) \<and>
        t \<in> node_ids (simulationOverlay act (baseElements act txs) simulationResult)"
  proof (cases simulationResult)
    case None
    with e d ne have "\<exists>tx \<in> set txs. s = tx_source tx \<and> t = tx_target tx"
      by (auto simp: simulationOverlay_def baseElements_def)
    with txs None show ?thesis
      by (auto simp: simulationOverlay_def node_ids_base)
  next
    case (Some sim)
    with e d ne edge_in_overlay [of e act txs sim i s t f] txs show ?thesis
      by (auto simp: node_ids_overlay)
  qed
  then show "s \<in> node_ids (networkElements accounts transactions filterRingsOnly simulationResult)"
    and "t \<in> node_ids (networkElements accounts transactions filterRingsOnly simulationResult)"
    by (simp_all add: ne)
next
  have "filter (\<lambda>e. is_NodeData (data e)) (map nodeElement as @ map edgeElement ts) = map nodeElement as"
    for as ts
    by (simp add: filter_map comp_def)
  moreover have "truthy (ringId a) \<longleftrightarrow> (\<exists>r. ringId a = Some r \<and> r \<noteq> [])" for a :: Account
    by (simp add: truthy_def split: option.splits)
  ultimately show "filter (\<lambda>e. is_NodeData (data e)) (networkElements accounts transactions True None)
     = map nodeElement (filter (\<lambda>a. \<exists>r. ringId a = Some r \<and> r \<noteq> []) accounts)"
    by (simp add: networkElements_def Let_def simulationOverlay_def baseElements_def activeAccountsOf_def)
qed

theorem no_dangling_edge_witness:
  "edgeElement example_transaction
     \<in> set (networkElements example_accounts [example_transaction] False None) \<and>
   data (edgeElement example_transaction) = EdgeData ''TX_000000'' ''A'' ''B'' True \<and>
   ''A'' \<in> node_ids (networkElements example_accounts [example_transaction] False None) \<and>
   ''B'' \<in> node_ids (networkElements example_accounts [example_transaction] False None) \<and>
   networkElements example_accounts [example_transaction] True None
     = [nodeElement example_account_A]"
proof -
  have mem: "edgeElement example_transaction
     \<in> set (networkElements example_accounts [example_transaction] False None)"
    by (simp add: graph_defs example_graph_defs)
  have dat: "data (edgeElement example_transaction) = EdgeData ''TX_000000'' ''A'' ''B'' True"
    by (simp add: example_transaction_def)
  have "''A'' \<in> node_ids (networkElements example_accounts [example_transaction] False None) \<and>
        ''B'' \<in> node_ids (networkElements example_accounts [example_transaction] False None)"
    using no_dangling_edge [of example_accounts "[example_transaction]" False None] mem dat
    by blast
  with mem dat show ?thesis
    by (simp add: graph_defs example_graph_defs)
qed

subsection \<open>Synthetic elements of the overlay\<close>

lemma nodeElement_classes:
  "classes (nodeElement a) \<in> {''ring-member'', ''suspicious'', ''clean''}"
  by (cases "truthy (ringId a)"; cases "50 < suspicionScore a") (simp_all add: nodeElement_def)

lemma edgeElement_classes:
  "classes (edgeElement t) \<in> {''fraud-edge'', ''normal-edge''}"
  by (cases "isFraud t") (simp_all add: edgeElement_def)

lemma base_classes:
  assumes "e \<in> set (baseElements act txs)"
  shows "classes e \<in> {''ring-member'', ''suspicious'', ''clean'', ''fraud-edge'', ''normal-edge''}"
proof -
  from assms consider a where "e = nodeElement a" | t where "e = edgeElement t"
    by (auto simp: baseElements_def)
  then show ?thesis
  proof cases
    case 1
    with nodeElement_classes [of a] show ?thesis by auto
  next
    case 2
    with edgeElement_classes [of t] show ?thesis by auto
  qed
qed

lemma mark_base_not_sim:
  assumes "e \<in> set (baseElements act txs)"
  shows "\<not> prefix ''sim-edge'' (classes (markElement A C e))"
    and "\<not> prefix ''sim-node'' (classes (markElement A C e))"
  using base_classes [OF assms] by (auto simp: markElement_classes)

lemma mark_simNode:
  "prefix ''sim-node'' (classes (markElement A C (simNode x)))"
  "\<not> prefix ''sim-edge'' (classes (markElement A C (simNode x)))"
  by (simp_all add: markElement_classes simNode_def)

lemma mark_simEdge:
  "prefix ''sim-edge'' (classes (markElement A C (simEdge tx)))"
  "\<not> prefix ''sim-node'' (classes (markElement A C (simEdge tx)))"
  by (simp_all add: markElement_classes simEdge_def)

lemma filter_mark_base:
  "filter (\<lambda>e. prefix ''sim-edge'' (classes e)) (map (markElement A C) (baseElements act txs)) = []"
  "filter (\<lambda>e. prefix ''sim-node'' (classes e)) (map (markElement A C) (baseElements act txs)) = []"
  by (simp_all add: filter_empty_conv mark_base_not_sim)

text \<open>
  C7. With a simulation result, the element list is the builder's list, one
  \<open>sim-node\<close> element (risk 0, no ring id) for the sender and one for the receiver,
  each exactly when the builder's list has no node with that id, and one edge
  element, the last, of class \<open>sim-edge\<close> with the id \<open>SIM_EDGE\<close>, from the sender to
  the receiver. It is the only element of class \<open>sim-edge\<close>, whether or not a
  transaction between the two accounts is in the list already.
\<close>

theorem overlay_synthetic_elements:
  "(let base = networkElements accounts transactions filterRingsOnly None;
        out = networkElements accounts transactions filterRingsOnly (Some sim);
        tx = hypothetical_tx sim;
        new_ids = (if sender_id tx \<in> node_ids base then [] else [sender_id tx])
                @ (if receiver_id tx \<in> node_ids base then [] else [receiver_id tx])
    in length out = length base + length new_ids + 1 \<and>
       map data (filter (\<lambda>e. prefix ''sim-edge'' (classes e)) out)
         = [EdgeData ''SIM_EDGE'' (sender_id tx) (receiver_id tx) False] \<and>
       data (last out) = EdgeData ''SIM_EDGE'' (sender_id tx) (receiver_id tx) False \<and>
       map data (filter (\<lambda>e. prefix ''sim-node'' (classes e)) out)
         = map (\<lambda>x. NodeData x 0 None (slice_last 6 x)) new_ids)"
proof -
  define act where "act = activeAccountsOf filterRingsOnly accounts"
  define txs where "txs = activeTransactionsOf act transactions"
  have base: "networkElements accounts transactions filterRingsOnly None = baseElements act txs"
    by (simp add: networkElements_def act_def txs_def Let_def simulationOverlay_def)
  have out: "networkElements accounts transactions filterRingsOnly (Some sim)
               = simulationOverlay act (baseElements act txs) (Some sim)"
    by (simp add: networkElements_def act_def txs_def Let_def)
  show ?thesis
    unfolding Let_def base out
    by (simp add: simulationOverlay_Some node_ids_base hasAccount_iff filter_mark_base
        mark_simNode mark_simEdge)
qed

theorem overlay_synthetic_elements_witness:
  "node_ids (networkElements example_accounts [example_transaction] False None) = {''A'', ''B''} \<and>
   length (networkElements example_accounts [example_transaction] False (Some example_simulation))
     = 5 \<and>
   map data (filter (\<lambda>e. prefix ''sim-edge'' (classes e))
     (networkElements example_accounts [example_transaction] False (Some example_simulation)))
     = [EdgeData ''SIM_EDGE'' ''A'' ''C'' False] \<and>
   map data (filter (\<lambda>e. prefix ''sim-node'' (classes e))
     (networkElements example_accounts [example_transaction] False (Some example_simulation)))
     = [NodeData ''C'' 0 None ''C'']"
proof -
  have ids: "node_ids (networkElements example_accounts [example_transaction] False None)
               = {''A'', ''B''}"
    by (auto simp: graph_defs example_graph_defs)
  have len: "length (networkElements example_accounts [example_transaction] False None) = 3"
    by (simp add: graph_defs example_graph_defs)
  have tx: "sender_id (hypothetical_tx example_simulation) = ''A''"
    "receiver_id (hypothetical_tx example_simulation) = ''C''"
    by (simp_all add: example_simulation_def)
  show ?thesis
    using overlay_synthetic_elements [of example_accounts "[example_transaction]" False
        example_simulation]
    by (simp add: Let_def ids len tx slice_last_def)
qed

subsection \<open>Local validation of a submission\<close>

lemma trim_Nil [simp]: "trim [] = []"
  by (simp add: trim_def)

lemma trim_nonempty: "trim s \<noteq> [] \<Longrightarrow> s \<noteq> []"
  by auto

text \<open>
  C9. A submission whose sender is empty, whose receiver is empty or whose amount does
  not parse to a number greater than 0 is rejected locally: the state stays as it is
  and no request is made. A request to \<open>/api/simulate\<close> is made only for a non-empty
  sender, a non-empty receiver and an amount that parses to a number greater than 0,
  and it carries that amount.
\<close>

theorem local_validation:
  "((sender st = [] \<or> receiver st = [] \<or> \<not> (\<exists>v. parseFloat (amountText st) = Some v \<and> 0 < v))
      \<longrightarrow> runSimulation parseFloat engine st = (st, [])) \<and>
   (\<forall>req. PostSimulate req \<in> set (snd (runSimulation parseFloat engine st)) \<longrightarrow>
      sender st \<noteq> [] \<and> receiver st \<noteq> [] \<and>
      (\<exists>v. parseFloat (amountText st) = Some v \<and> 0 < v \<and> req_amount req = Some v) \<and>
      req_sender_id req \<noteq> [] \<and> req_receiver_id req \<noteq> [])"
  by (auto simp: runSimulation_def canSubmit_def Let_def split: option.splits sum.splits if_splits)

theorem local_validation_witness:
  "runSimulation example_parseFloat (\<lambda>req. Inr example_simulation) (example_form ''A'' [] ''500'')
     = (example_form ''A'' [] ''500'', []) \<and>
   PostSimulate \<lparr>req_sender_id = ''A'', req_receiver_id = ''C'', req_amount = Some 500,
                 req_timestamp = None\<rparr>
     \<in> set (snd (runSimulation example_parseFloat (\<lambda>req. Inr example_simulation)
                   (example_form ''A'' ''C'' ''500''))) \<and>
   example_parseFloat (amountText (example_form ''A'' ''C'' ''500'')) = Some 500"
proof -
  have empty: "receiver (example_form ''A'' [] ''500'') = []"
    by (simp add: example_form_def)
  have sent: "PostSimulate \<lparr>req_sender_id = ''A'', req_receiver_id = ''C'',
                req_amount = Some 500, req_timestamp = None\<rparr>
     \<in> set (snd (runSimulation example_parseFloat (\<lambda>req. Inr example_simulation)
                   (example_form ''A'' ''C'' ''500'')))"
    by (simp add: runSimulation_def canSubmit_def trim_def is_space_def example_form_def
        example_parseFloat_def Let_def)
  have "runSimulation example_parseFloat (\<lambda>req. Inr example_simulation)
          (example_form ''A'' [] ''500'') = (example_form ''A'' [] ''500'', [])"
    using local_validation [of "example_form ''A'' [] ''500''" example_parseFloat
        "\<lambda>req. Inr example_simulation"] empty
    by blast
  moreover have "example_parseFloat (amountText (example_form ''A'' ''C'' ''500'')) = Some 500"
    using local_validation [of "example_form ''A'' ''C'' ''500''" example_parseFloat
        "\<lambda>req. Inr example_simulation"] sent
    by fastforce
  ultimately show ?thesis
    using sent by simp
qed

subsection \<open>Connection index\<close>

lemma pushConnection_at:
  "conns_at (pushConnection m k c) k' = conns_at m k' @ (if k' = k then [c] else [])"
  by (simp add: pushConnection_def conns_at_def Let_def split: option.splits)

lemma addEdge_at: "conns_at (addEdge m e) k = conns_at m k @ edge_connections k e"
  by (simp add: addEdge_def Let_def pushConnection_at edge_connections_def)

lemma foldl_addEdge_at:
  "conns_at (foldl addEdge m es) k = conns_at m k @ concat (map (edge_connections k) es)"
  by (induction es arbitrary: m) (simp_all add: addEdge_at)

lemma connectionsMapOf_at:
  "conns_at (connectionsMapOf es) k = concat (map (edge_connections k) es)"
  by (simp add: connectionsMapOf_def foldl_addEdge_at) (simp add: conns_at_def)

lemma mapNode_connections:
  "connections (mapNode sm cm rm rnd node) = conns_at cm (node_id node)"
  by (simp add: mapNode_def Let_def conns_at_def)

lemma count_out_connections:
  "count_list (concat (map (edge_connections k) es)) \<lparr>targetId = t, direction = DirOut, amount = a\<rparr>
     = length (filter (\<lambda>e. edge_source e = k \<and> edge_target e = t \<and> total_amount e = a) es)"
  by (induction es) (auto simp: edge_connections_def)

lemma count_in_connections:
  "count_list (concat (map (edge_connections k) es)) \<lparr>targetId = s, direction = DirIn, amount = a\<rparr>
     = length (filter (\<lambda>e. edge_source e = s \<and> edge_target e = k \<and> total_amount e = a) es)"
  by (induction es) (auto simp: edge_connections_def)

lemma distinct_map_filter_length:
  "distinct (map f xs) \<Longrightarrow> length (filter (\<lambda>x. f x = v) xs) = (if v \<in> f ` set xs then 1 else 0)"
  by (induction xs) (auto simp: image_iff)

lemma in_connections_edge:
  "c \<in> set (concat (map (edge_connections k) es)) \<Longrightarrow>
     \<exists>e \<in> set es. total_amount e = amount c \<and>
        (case direction c of
           DirOut \<Rightarrow> edge_source e = k \<and> edge_target e = targetId c
         | DirIn \<Rightarrow> edge_target e = k \<and> edge_source e = targetId c)"
  by (auto simp: edge_connections_def split: if_splits)

lemma map_enumerate_mapNode:
  "map acc_id (map (\<lambda>(i, node). mapNode sm cm rm (rnd i) node) (enumerate n ns)) = map node_id ns"
  by (induction ns arbitrary: n) simp_all

lemma in_map_enumerate_mapNode:
  "a \<in> set (map (\<lambda>(i, node). mapNode sm cm rm (rnd i) node) (enumerate n ns)) \<Longrightarrow>
     \<exists>i node. node \<in> set ns \<and> a = mapNode sm cm rm (rnd i) node"
proof -
  assume "a \<in> set (map (\<lambda>(i, node). mapNode sm cm rm (rnd i) node) (enumerate n ns))"
  then obtain i node where "(i, node) \<in> set (enumerate n ns)" "a = mapNode sm cm rm (rnd i) node"
    by auto
  moreover from this(1) have "node \<in> set ns"
    by (metis in_set_zipE enumerate_eq_zip)
  ultimately show ?thesis by blast
qed

lemma accounts_of_response:
  assumes "mapApiToAccounts random response = Inr accounts" and "graph response = Some g"
  shows "map acc_id accounts = map node_id (nodes g)"
    and "\<forall>a \<in> set accounts. connections a = concat (map (edge_connections (acc_id a)) (edges g))"
proof -
  from assms obtain sas rings where
    accounts: "accounts = map (\<lambda>(i, node). mapNode (accountScoreMapOf sas)
       (connectionsMapOf (edges g)) (nodeRingMapOf rings) (random i) node) (enumerate 0 (nodes g))"
    by (auto simp: mapApiToAccounts_def Let_def split: option.splits)
  show "map acc_id accounts = map node_id (nodes g)"
    unfolding accounts by (rule map_enumerate_mapNode)
  show "\<forall>a \<in> set accounts. connections a = concat (map (edge_connections (acc_id a)) (edges g))"
  proof
    fix a assume "a \<in> set accounts"
    then obtain i node where "a = mapNode (accountScoreMapOf sas)
       (connectionsMapOf (edges g)) (nodeRingMapOf rings) (random i) node"
      unfolding accounts by (blast dest: in_map_enumerate_mapNode)
    then show "connections a = concat (map (edge_connections (acc_id a)) (edges g))"
      by (simp add: mapNode_connections connectionsMapOf_at)
  qed
qed

lemma transactions_of_response:
  assumes "mapApiToTransactions clock response = Inr transactions" and "graph response = Some g"
  shows "map (\<lambda>t. (tx_source t, tx_target t, tx_amount t)) transactions
           = map edge_triple (edges g)"
proof -
  have "map (\<lambda>t. (tx_source t, tx_target t, tx_amount t))
          (map (\<lambda>(i, edge). mapEdge (clock i) i edge) (enumerate n es)) = map edge_triple es"
    for n es
    by (induction es arbitrary: n) (simp_all add: mapEdge_def edge_triple_def)
  with assms show ?thesis
    by (auto simp: mapApiToTransactions_def)
qed

text \<open>
  C1, as amended. For a response that lists no two edges with the same source, target
  and amount: the projected accounts are the graph nodes, in order; for every
  transaction \<open>(s, t, amount)\<close>, every account with the id \<open>s\<close> has exactly one \<open>out\<close>
  connection \<open>{t, amount}\<close> and every account with the id \<open>t\<close> has exactly one \<open>in\<close>
  connection \<open>{s, amount}\<close>; and every connection of an account arises from exactly one
  edge of the response.
\<close>

theorem connection_symmetry:
  assumes acc: "mapApiToAccounts random response = Inr accounts"
    and tx: "mapApiToTransactions clock response = Inr transactions"
    and g: "graph response = Some g"
    and dist: "distinct (map edge_triple (edges g))"
  shows "map acc_id accounts = map node_id (nodes g) \<and>
     (\<forall>t \<in> set transactions. \<forall>a \<in> set accounts.
        (acc_id a = tx_source t \<longrightarrow>
           count_list (connections a)
             \<lparr>targetId = tx_target t, direction = DirOut, amount = tx_amount t\<rparr> = 1) \<and>
        (acc_id a = tx_target t \<longrightarrow>
           count_list (connections a)
             \<lparr>targetId = tx_source t, direction = DirIn, amount = tx_amount t\<rparr> = 1)) \<and>
     (\<forall>a \<in> set accounts. \<forall>c \<in> set (connections a).
        \<exists>!e. e \<in> set (edges g) \<and> total_amount e = amount c \<and>
          (case direction c of
             DirOut \<Rightarrow> edge_source e = acc_id a \<and> edge_target e = targetId c
           | DirIn \<Rightarrow> edge_target e = acc_id a \<and> edge_source e = targetId c))"
proof (intro conjI ballI impI)
  show "map acc_id accounts = map node_id (nodes g)"
    by (rule accounts_of_response(1) [OF acc g])
next
  fix t a
  assume t: "t \<in> set transactions" and a: "a \<in> set accounts"
  from t have "(tx_source t, tx_target t, tx_amount t)
                 \<in> set (map (\<lambda>t. (tx_source t, tx_target t, tx_amount t)) transactions)"
    by force
  then have mem: "(tx_source t, tx_target t, tx_amount t) \<in> edge_triple ` set (edges g)"
    by (simp add: transactions_of_response [OF tx g])
  have one: "length (filter (\<lambda>e. edge_triple e = (tx_source t, tx_target t, tx_amount t)) (edges g)) = 1"
    using distinct_map_filter_length [OF dist] mem by simp
  have conns: "connections a = concat (map (edge_connections (acc_id a)) (edges g))"
    using accounts_of_response(2) [OF acc g] a by blast
  {
    assume "acc_id a = tx_source t"
    then show "count_list (connections a)
             \<lparr>targetId = tx_target t, direction = DirOut, amount = tx_amount t\<rparr> = 1"
      using one by (simp add: conns count_out_connections edge_triple_def)
  next
    assume "acc_id a = tx_target t"
    then show "count_list (connections a)
             \<lparr>targetId = tx_source t, direction = DirIn, amount = tx_amount t\<rparr> = 1"
      using one by (simp add: conns count_in_connections edge_triple_def)
  }
next
  fix a c
  assume a: "a \<in> set accounts" and c: "c \<in> set (connections a)"
  have conns: "connections a = concat (map (edge_connections (acc_id a)) (edges g))"
    using accounts_of_response(2) [OF acc g] a by blast
  let ?P = "\<lambda>e. e \<in> set (edges g) \<and> total_amount e = amount c \<and>
          (case direction c of
             DirOut \<Rightarrow> edge_source e = acc_id a \<and> edge_target e = targetId c
           | DirIn \<Rightarrow> edge_target e = acc_id a \<and> edge_source e = targetId c)"
  from c conns in_connections_edge [of c "acc_id a" "edges g"] obtain e where e: "?P e"
    by auto
  moreover have "e' = e" if "?P e'" for e'
  proof -
    from that e have "edge_triple e' = edge_triple e"
      by (cases "direction c") (simp_all add: edge_triple_def)
    moreover from that e have "e' \<in> set (edges g)" "e \<in> set (edges g)" by simp_all
    ultimately show ?thesis
      using dist by (meson distinct_map inj_onD)
  qed
  ultimately show "\<exists>!e. ?P e"
    by blast
qed

theorem connection_symmetry_witness:
  "mapApiToAccounts example_random example_response
     = Inr [example_account_A, example_account_B] \<and>
   mapApiToTransactions example_clock example_response = Inr [example_transaction] \<and>
   graph example_response = Some example_graph \<and>
   distinct (map edge_triple (edges example_graph)) \<and>
   acc_id example_account_A = tx_source example_transaction \<and>
   count_list (connections example_account_A)
     \<lparr>targetId = ''B'', direction = DirOut, amount = 1000\<rparr> = 1 \<and>
   acc_id example_account_B = tx_target example_transaction \<and>
   count_list (connections example_account_B)
     \<lparr>targetId = ''A'', direction = DirIn, amount = 1000\<rparr> = 1"
proof -
  have g: "graph example_response = Some example_graph"
    by (simp add: example_response_def)
  have dist: "distinct (map edge_triple (edges example_graph))"
    by (simp add: example_graph_def)
  have ids: "acc_id example_account_A = tx_source example_transaction"
    "acc_id example_account_B = tx_target example_transaction"
    by (simp_all add: example_account_A_def example_account_B_def example_transaction_def)
  have "count_list (connections example_account_A)
     \<lparr>targetId = tx_target example_transaction, direction = DirOut,
      amount = tx_amount example_transaction\<rparr> = 1 \<and>
    count_list (connections example_account_B)
     \<lparr>targetId = tx_source example_transaction, direction = DirIn,
      amount = tx_amount example_transaction\<rparr> = 1"
    using connection_symmetry [OF example_accounts example_transactions g dist] ids
    by simp
  then show ?thesis
    using example_accounts example_transactions g dist ids
    by (simp add: example_transaction_def)
qed

theorem connection_symmetry_counterexample:
  "mapApiToTransactions example_clock duplicate_edge_response
     = Inr [duplicate_edge_transaction ''TX_000000'', duplicate_edge_transaction ''TX_000001''] \<and>
   mapApiToAccounts example_random duplicate_edge_response
     = Inr [duplicate_edge_account_A, duplicate_edge_account_B] \<and>
   acc_id duplicate_edge_account_A = tx_source (duplicate_edge_transaction ''TX_000000'') \<and>
   count_list (connections duplicate_edge_account_A)
     \<lparr>targetId = tx_target (duplicate_edge_transaction ''TX_000000''), direction = DirOut,
      amount = tx_amount (duplicate_edge_transaction ''TX_000000'')\<rparr> = 2"
  by (simp add: mapper_defs example_defs duplicate_edge_response_def example_clock_def
      example_random_def duplicate_edge_transaction_def duplicate_edge_account_A_def
      duplicate_edge_account_B_def)

subsection \<open>Score range\<close>

lemma mapNode_suspicionScore:
  "suspicionScore (mapNode sm cm rm rnd node)
     = (case sm (node_id node) of Some a \<Rightarrow> sa_suspicion_score a | None \<Rightarrow> suspicion_score node)"
  by (simp add: mapNode_def Let_def)

text \<open>
  C5. The suspicion score of a projected account is the score of the response, copied
  as it is. The response whose one node has the score 150 is projected to an account
  whose \<open>suspicionScore\<close> is 150 and so not in [0,100], the range that the comment
  at the field in \<^verbatim>\<open>mockData.ts\<close> gives.
\<close>

theorem score_out_of_range:
  "mapApiToAccounts example_random out_of_range_response = Inr [out_of_range_account] \<and>
   suspicionScore out_of_range_account = 150 \<and>
   \<not> within_0_100 (suspicionScore out_of_range_account)"
  by (simp add: mapper_defs example_defs out_of_range_response_def example_random_def
      out_of_range_account_def within_0_100_def)

subsection \<open>Running the mapper again\<close>

lemma mapNode_erase:
  "erase_avgHoldTime (mapNode sm cm rm r node) = erase_avgHoldTime (mapNode sm cm rm r' node)"
  by (simp add: erase_avgHoldTime_def mapNode_def Let_def)

lemma map_mapNode_erase:
  "map erase_avgHoldTime (map (\<lambda>(i, node). mapNode sm cm rm (rnd i) node) (enumerate n ns))
     = map erase_avgHoldTime (map (\<lambda>(i, node). mapNode sm cm rm (rnd' i) node) (enumerate n ns))"
  by (induction ns arbitrary: n) (simp_all add: mapNode_erase)

lemma map_mapEdge_erase:
  "map erase_timestamp (map (\<lambda>(i, edge). mapEdge (clk i) i edge) (enumerate n es))
     = map erase_timestamp (map (\<lambda>(i, edge). mapEdge (clk' i) i edge) (enumerate n es))"
  by (induction es arbitrary: n) (simp_all add: mapEdge_def erase_timestamp_def)

lemma mapApiToAccounts_missing:
  "suspicious_accounts response = None \<or> graph response = None \<or> fraud_rings response = None
     \<Longrightarrow> mapApiToAccounts random response = Inl TypeError"
  by (auto simp: mapApiToAccounts_def split: option.splits)

lemma mapApiToAccounts_present:
  "suspicious_accounts response = Some sas \<Longrightarrow> graph response = Some g \<Longrightarrow>
   fraud_rings response = Some rings \<Longrightarrow>
   mapApiToAccounts random response =
     Inr (map (\<lambda>(i, node). mapNode (accountScoreMapOf sas) (connectionsMapOf (edges g))
                (nodeRingMapOf rings) (random i) node) (enumerate 0 (nodes g)))"
  by (simp add: mapApiToAccounts_def Let_def)

lemma deriveEntities_rings:
  "map_sum id (\<lambda>(accounts, rings, transactions). rings) (deriveEntities random clock (Some response))
     = (if suspicious_accounts response = None \<or> graph response = None then Inl TypeError
        else mapApiToRings response)"
  by (auto simp: deriveEntities_def mapApiToAccounts_def mapApiToRings_def
      mapApiToTransactions_def Let_def split: option.splits)

text \<open>
  C3, as amended. Two runs of the mapper on the same response, each with its own
  random numbers and clock readings, agree on every field of every account but
  \<open>networkStats.avgHoldTime\<close>, on every field of every transaction but \<open>timestamp\<close>
  (the transaction ids included), and on the rings; and one fails exactly when the
  other does.
\<close>

theorem mapper_rerun:
  "map_sum id (map erase_avgHoldTime) (mapApiToAccounts random response)
     = map_sum id (map erase_avgHoldTime) (mapApiToAccounts random' response) \<and>
   map_sum id (map erase_timestamp) (mapApiToTransactions clock response)
     = map_sum id (map erase_timestamp) (mapApiToTransactions clock' response) \<and>
   map_sum id (\<lambda>(accounts, rings, transactions). rings)
       (deriveEntities random clock (Some response))
     = map_sum id (\<lambda>(accounts, rings, transactions). rings)
       (deriveEntities random' clock' (Some response))"
proof (intro conjI)
  show "map_sum id (map erase_avgHoldTime) (mapApiToAccounts random response)
     = map_sum id (map erase_avgHoldTime) (mapApiToAccounts random' response)"
  proof (cases "suspicious_accounts response = None \<or> graph response = None
      \<or> fraud_rings response = None")
    case True
    then show ?thesis by (simp only: mapApiToAccounts_missing)
  next
    case False
    then obtain sas g rings where "suspicious_accounts response = Some sas"
      "graph response = Some g" "fraud_rings response = Some rings"
      by auto
    then have "mapApiToAccounts random response =
        Inr (map (\<lambda>(i, node). mapNode (accountScoreMapOf sas) (connectionsMapOf (edges g))
                (nodeRingMapOf rings) (random i) node) (enumerate 0 (nodes g)))"
      and "mapApiToAccounts random' response =
        Inr (map (\<lambda>(i, node). mapNode (accountScoreMapOf sas) (connectionsMapOf (edges g))
                (nodeRingMapOf rings) (random' i) node) (enumerate 0 (nodes g)))"
      by (simp_all only: mapApiToAccounts_present)
    then show ?thesis
      using map_mapNode_erase [of "accountScoreMapOf sas" "connectionsMapOf (edges g)"
          "nodeRingMapOf rings" random 0 "nodes g" random']
      by (simp only: map_sum.simps)
  qed
  show "map_sum id (map erase_timestamp) (mapApiToTransactions clock response)
     = map_sum id (map erase_timestamp) (mapApiToTransactions clock' response)"
  proof (cases "graph response")
    case None
    then show ?thesis by (simp add: mapApiToTransactions_def)
  next
    case (Some g)
    then have "mapApiToTransactions clock response =
        Inr (map (\<lambda>(i, edge). mapEdge (clock i) i edge) (enumerate 0 (edges g)))"
      and "mapApiToTransactions clock' response =
        Inr (map (\<lambda>(i, edge). mapEdge (clock' i) i edge) (enumerate 0 (edges g)))"
      by (simp_all add: mapApiToTransactions_def)
    then show ?thesis
      using map_mapEdge_erase [of clock 0 "edges g" clock']
      by (simp only: map_sum.simps)
  qed
  show "map_sum id (\<lambda>(accounts, rings, transactions). rings)
       (deriveEntities random clock (Some response))
     = map_sum id (\<lambda>(accounts, rings, transactions). rings)
       (deriveEntities random' clock' (Some response))"
    by (simp only: deriveEntities_rings)
qed

theorem mapper_rerun_witness:
  "map erase_avgHoldTime [example_account_A, example_account_B]
     = map erase_avgHoldTime
         [example_account_A\<lparr>networkStats := (networkStats example_account_A)\<lparr>avgHoldTime := 13\<rparr>\<rparr>,
          example_account_B\<lparr>networkStats := (networkStats example_account_B)\<lparr>avgHoldTime := 13\<rparr>\<rparr>]"
proof -
  have half: "mapApiToAccounts example_random_half example_response
     = Inr [example_account_A\<lparr>networkStats := (networkStats example_account_A)\<lparr>avgHoldTime := 13\<rparr>\<rparr>,
          example_account_B\<lparr>networkStats := (networkStats example_account_B)\<lparr>avgHoldTime := 13\<rparr>\<rparr>]"
    by (simp add: mapper_defs example_defs example_random_half_def example_account_A_def
        example_account_B_def)
  show ?thesis
    using mapper_rerun [of example_random example_response example_random_half]
    by (simp only: example_accounts half map_sum.simps sum.inject)
qed

theorem mapper_rerun_counterexample:
  "mapApiToAccounts example_random example_response
     \<noteq> mapApiToAccounts example_random_half example_response \<and>
   mapApiToTransactions example_clock example_response
     \<noteq> mapApiToTransactions example_clock_later example_response"
  by (simp add: mapper_defs example_defs example_random_def example_random_half_def
      example_clock_def example_clock_later_def)

subsection \<open>Responses that lack a member\<close>





subsection \<open>What the mappers write\<close>

lemma take_alloc: "n \<le> length h \<Longrightarrow> take n (fst (alloc h)) = take n h"
  by (simp add: alloc_def)

lemma take_push: "n \<le> a \<Longrightarrow> take n (push h a v) = take n h"
  by (simp add: push_def)

lemma pushConnection_st_frame:
  assumes "pushConnection_st (m, h) k c = (m', h')" and "fresh_from n m" and "n \<le> length h"
  shows "fresh_from n m' \<and> take n h' = take n h \<and> n \<le> length h'"
  using assms
  by (auto simp: pushConnection_st_def alloc_def push_def fresh_from_def
      split: if_splits option.splits)

lemma addEdge_st_frame:
  assumes "addEdge_st (m, h) e = (m', h')" and "fresh_from n m" and "n \<le> length h"
  shows "fresh_from n m' \<and> take n h' = take n h \<and> n \<le> length h'"
proof -
  obtain m1 h1 where 1: "pushConnection_st (m, h) (edge_source e)
       \<lparr>targetId = edge_target e, direction = DirOut, amount = total_amount e\<rparr> = (m1, h1)"
    by (cases "pushConnection_st (m, h) (edge_source e)
       \<lparr>targetId = edge_target e, direction = DirOut, amount = total_amount e\<rparr>")
  with assms(1) have 2: "pushConnection_st (m1, h1) (edge_target e)
       \<lparr>targetId = edge_source e, direction = DirIn, amount = total_amount e\<rparr> = (m', h')"
    by (simp add: addEdge_st_def Let_def)
  from pushConnection_st_frame [OF 1 assms(2,3)]
  have "fresh_from n m1" "take n h1 = take n h" "n \<le> length h1" by simp_all
  with pushConnection_st_frame [OF 2] show ?thesis by simp
qed

lemma foldl_addEdge_st_frame:
  assumes "foldl addEdge_st (m, h) es = (m', h')" and "fresh_from n m" and "n \<le> length h"
  shows "fresh_from n m' \<and> take n h' = take n h \<and> n \<le> length h'"
  using assms
proof (induction es arbitrary: m h)
  case Nil
  then show ?case by simp
next
  case (Cons e es)
  obtain m1 h1 where 1: "addEdge_st (m, h) e = (m1, h1)"
    by (cases "addEdge_st (m, h) e")
  from addEdge_st_frame [OF 1 Cons.prems(2,3)]
  have "fresh_from n m1" "take n h1 = take n h" "n \<le> length h1" by simp_all
  moreover from Cons.prems(1) 1 have "foldl addEdge_st (m1, h1) es = (m', h')" by simp
  ultimately show ?case
    using Cons.IH [of m1 h1] by simp
qed

lemma mapNode_st_frame:
  assumes "mapNode_st pm cm h node = (h', r)" and "n \<le> length h"
  shows "take n h' = take n h \<and> n \<le> length h'"
  using assms
  by (auto simp: mapNode_st_def alloc_def split: option.splits)

lemma mapNodes_st_frame:
  assumes "mapNodes_st pm cm h ns = (h', rs)" and "n \<le> length h"
  shows "take n h' = take n h \<and> n \<le> length h'"
  using assms
proof (induction ns arbitrary: h rs)
  case Nil
  then show ?case by simp
next
  case (Cons node ns)
  obtain h1 r where 1: "mapNode_st pm cm h node = (h1, r)"
    by (cases "mapNode_st pm cm h node")
  obtain h2 rs' where "mapNodes_st pm cm h1 ns = (h2, rs')"
    by (cases "mapNodes_st pm cm h1 ns")
  with Cons.prems(1) 1 have 2: "mapNodes_st pm cm h1 ns = (h', rs')" by simp
  from mapNode_st_frame [OF 1 Cons.prems(2)]
  have "take n h1 = take n h" "n \<le> length h1" by simp_all
  then show ?case
    using Cons.IH [OF 2] by simp
qed

text \<open>
  The store version computes what the mappers above compute: in the store it returns,
  the cells of an account's two arrays hold the connections and the patterns of the
  account.
\<close>

lemma conn_sim_empty: "conn_sim n Map.empty Map.empty h"
  by (simp add: conn_sim_def)

lemma conn_sim_Some:
  assumes "conn_sim n mp m h" and "m k = Some a"
  shows "n \<le> a \<and> a < length h \<and> (\<exists>cs. mp k = Some cs \<and> h ! a = map Conn cs)"
proof -
  from assms(1) have "case m k of
      None \<Rightarrow> mp k = None
    | Some a \<Rightarrow> n \<le> a \<and> a < length h \<and> (\<exists>cs. mp k = Some cs \<and> h ! a = map Conn cs)"
    unfolding conn_sim_def by blast
  with assms(2) show ?thesis by simp
qed

lemma conn_sim_None:
  assumes "conn_sim n mp m h" and "m k = None"
  shows "mp k = None"
proof -
  from assms(1) have "case m k of
      None \<Rightarrow> mp k = None
    | Some a \<Rightarrow> n \<le> a \<and> a < length h \<and> (\<exists>cs. mp k = Some cs \<and> h ! a = map Conn cs)"
    unfolding conn_sim_def by blast
  with assms(2) show ?thesis by simp
qed

lemma conn_sim_inj:
  "conn_sim n mp m h \<Longrightarrow> m k = Some a \<Longrightarrow> m k' = Some a \<Longrightarrow> k = k'"
  unfolding conn_sim_def by blast

lemma pushConnection_st_sim:
  assumes sim: "conn_sim n mp m h" and n: "n \<le> length h"
    and step: "pushConnection_st (m, h) k c = (m', h')"
  shows "conn_sim n (pushConnection mp k c) m' h' \<and> n \<le> length h'"
proof (cases "m k")
  case None
  with sim have mp: "mp k = None"
    by (simp add: conn_sim_None)
  from None step have m': "m' = m(k \<mapsto> length h)" and h': "h' = h @ [[Conn c]]"
    by (auto simp: pushConnection_st_def alloc_def push_def)
  have eq: "pushConnection mp k c = mp(k \<mapsto> [c])"
    using mp by (simp add: pushConnection_def Let_def)
  have "conn_sim n (mp(k \<mapsto> [c])) (m(k \<mapsto> length h)) (h @ [[Conn c]])"
    unfolding conn_sim_def
  proof (intro conjI allI impI)
    fix k'
    show "case (m(k \<mapsto> length h)) k' of
            None \<Rightarrow> (mp(k \<mapsto> [c])) k' = None
          | Some a \<Rightarrow> n \<le> a \<and> a < length (h @ [[Conn c]]) \<and>
              (\<exists>cs. (mp(k \<mapsto> [c])) k' = Some cs \<and> (h @ [[Conn c]]) ! a = map Conn cs)"
    proof (cases "k' = k")
      case True
      with n show ?thesis by simp
    next
      case False
      show ?thesis
      proof (cases "m k'")
        case None
        with sim False show ?thesis by (simp add: conn_sim_None)
      next
        case (Some b)
        with conn_sim_Some [OF sim this] False show ?thesis
          by (auto simp: nth_append)
      qed
    qed
  next
    fix k1 k2 a
    assume *: "(m(k \<mapsto> length h)) k1 = Some a \<and> (m(k \<mapsto> length h)) k2 = Some a"
    show "k1 = k2"
    proof (cases "k1 = k \<or> k2 = k")
      case True
      with * conn_sim_Some [OF sim, of k1 a] conn_sim_Some [OF sim, of k2 a] show ?thesis
        by (auto split: if_splits)
    next
      case False
      with * conn_sim_inj [OF sim, of k1 a k2] show ?thesis by simp
    qed
  qed
  then have "conn_sim n (pushConnection mp k c) m' h'"
    by (simp only: eq m' h')
  moreover have "n \<le> length h'"
    using n by (simp add: h')
  ultimately show ?thesis ..
next
  case (Some a)
  with conn_sim_Some [OF sim, of k a] obtain cs where a: "n \<le> a" "a < length h"
    and mp: "mp k = Some cs" and ha: "h ! a = map Conn cs"
    by auto
  from Some step a have m': "m' = m" and h': "h' = h[a := h ! a @ [Conn c]]"
    by (auto simp: pushConnection_st_def push_def)
  have eq: "pushConnection mp k c = mp(k \<mapsto> cs @ [c])"
    using mp by (simp add: pushConnection_def Let_def)
  have "conn_sim n (mp(k \<mapsto> cs @ [c])) m (h[a := h ! a @ [Conn c]])"
    unfolding conn_sim_def
  proof (intro conjI allI impI)
    fix k'
    show "case m k' of
            None \<Rightarrow> (mp(k \<mapsto> cs @ [c])) k' = None
          | Some b \<Rightarrow> n \<le> b \<and> b < length (h[a := h ! a @ [Conn c]]) \<and>
              (\<exists>cs'. (mp(k \<mapsto> cs @ [c])) k' = Some cs' \<and>
                     (h[a := h ! a @ [Conn c]]) ! b = map Conn cs')"
    proof (cases "k' = k")
      case True
      with Some a ha show ?thesis by simp
    next
      case False
      show ?thesis
      proof (cases "m k'")
        case None
        with sim False show ?thesis by (simp add: conn_sim_None)
      next
        case (Some b)
        with conn_sim_inj [OF sim \<open>m k = Some a\<close>, of k'] False have "b \<noteq> a"
          by auto
        with conn_sim_Some [OF sim Some] Some False show ?thesis
          by auto
      qed
    qed
  next
    fix k1 k2 b
    assume "m k1 = Some b \<and> m k2 = Some b"
    with sim show "k1 = k2"
      by (blast intro: conn_sim_inj)
  qed
  then have "conn_sim n (pushConnection mp k c) m' h'"
    by (simp only: eq m' h')
  moreover have "n \<le> length h'"
    using n by (simp add: h')
  ultimately show ?thesis ..
qed

lemma addEdge_st_sim:
  assumes sim: "conn_sim n mp m h" and n: "n \<le> length h"
    and step: "addEdge_st (m, h) e = (m', h')"
  shows "conn_sim n (addEdge mp e) m' h' \<and> n \<le> length h'"
proof -
  let ?out = "\<lparr>targetId = edge_target e, direction = DirOut, amount = total_amount e\<rparr>"
  let ?in = "\<lparr>targetId = edge_source e, direction = DirIn, amount = total_amount e\<rparr>"
  obtain m1 h1 where 1: "pushConnection_st (m, h) (edge_source e) ?out = (m1, h1)"
    by (cases "pushConnection_st (m, h) (edge_source e) ?out")
  with step have 2: "pushConnection_st (m1, h1) (edge_target e) ?in = (m', h')"
    by (simp add: addEdge_st_def Let_def)
  from pushConnection_st_sim [OF sim n 1]
  have "conn_sim n (pushConnection mp (edge_source e) ?out) m1 h1" and "n \<le> length h1"
    by simp_all
  from pushConnection_st_sim [OF this 2] show ?thesis
    by (simp add: addEdge_def Let_def)
qed

lemma foldl_addEdge_st_sim:
  assumes "conn_sim n mp m h" and "n \<le> length h"
    and "foldl addEdge_st (m, h) es = (m', h')"
  shows "conn_sim n (foldl addEdge mp es) m' h' \<and> n \<le> length h'"
  using assms
proof (induction es arbitrary: mp m h)
  case Nil
  then show ?case by simp
next
  case (Cons e es)
  obtain m1 h1 where 1: "addEdge_st (m, h) e = (m1, h1)"
    by (cases "addEdge_st (m, h) e")
  from addEdge_st_sim [OF Cons.prems(1,2) 1]
  have "conn_sim n (addEdge mp e) m1 h1" and "n \<le> length h1" by simp_all
  moreover from Cons.prems(3) 1 have "foldl addEdge_st (m1, h1) es = (m', h')" by simp
  ultimately show ?case
    using Cons.IH [of "addEdge mp e" m1 h1] by simp
qed

lemma connectionsMapOf_st_sim:
  assumes "connectionsMapOf_st h es = (m', h')"
  shows "conn_sim (length h) (connectionsMapOf es) m' h' \<and> length h \<le> length h'"
  using foldl_addEdge_st_sim [OF conn_sim_empty, of "length h" h es m' h'] assms
  by (simp add: connectionsMapOf_st_def connectionsMapOf_def)

lemma foldl_pat_sim:
  assumes "length sas = length refs"
    and "pat_sim h sm pm"
    and "\<forall>(a, r) \<in> set (zip sas refs). r < length h \<and> h ! r = map Str (detected_patterns a)"
  shows "pat_sim h (foldl (\<lambda>m a. m(account_id a \<mapsto> a)) sm sas)
           (foldl (\<lambda>m (a, r). m(account_id a \<mapsto> r)) pm (zip sas refs))"
  using assms
proof (induction sas refs arbitrary: sm pm rule: list_induct2)
  case Nil
  then show ?case by simp
next
  case (Cons a sas r refs)
  have "pat_sim h (sm(account_id a \<mapsto> a)) (pm(account_id a \<mapsto> r))"
    unfolding pat_sim_def
  proof
    fix k
    show "case (pm(account_id a \<mapsto> r)) k of
            None \<Rightarrow> (sm(account_id a \<mapsto> a)) k = None
          | Some b \<Rightarrow> b < length h \<and>
              (\<exists>acct. (sm(account_id a \<mapsto> a)) k = Some acct \<and>
                      h ! b = map Str (detected_patterns acct))"
    proof (cases "k = account_id a")
      case True
      with Cons.prems(2) show ?thesis by simp
    next
      case False
      from Cons.prems(1) have "case pm k of
            None \<Rightarrow> sm k = None
          | Some b \<Rightarrow> b < length h \<and>
              (\<exists>acct. sm k = Some acct \<and> h ! b = map Str (detected_patterns acct))"
        unfolding pat_sim_def by blast
      with False show ?thesis by (simp split: option.splits)
    qed
  qed
  moreover from Cons.prems(2)
  have "\<forall>(a, r) \<in> set (zip sas refs). r < length h \<and> h ! r = map Str (detected_patterns a)"
    by simp
  ultimately have "pat_sim h
      (foldl (\<lambda>m a. m(account_id a \<mapsto> a)) (sm(account_id a \<mapsto> a)) sas)
      (foldl (\<lambda>m (a, r). m(account_id a \<mapsto> r)) (pm(account_id a \<mapsto> r)) (zip sas refs))"
    by (rule Cons.IH)
  then show ?case by (simp only: foldl_Cons zip_Cons_Cons prod.case)
qed

lemma accountRefMapOf_sim:
  assumes "refs_hold h sas refs"
  shows "pat_sim h (accountScoreMapOf sas) (accountRefMapOf sas refs)"
  unfolding accountScoreMapOf_def accountRefMapOf_def
  using assms
  by (intro foldl_pat_sim) (auto simp: refs_hold_def pat_sim_def list_all_iff)

lemma pat_sim_None: "pat_sim h sm pm \<Longrightarrow> pm k = None \<Longrightarrow> sm k = None"
proof -
  assume sim: "pat_sim h sm pm" and k: "pm k = None"
  from sim have "case pm k of
      None \<Rightarrow> sm k = None
    | Some a \<Rightarrow> a < length h \<and>
        (\<exists>acct. sm k = Some acct \<and> h ! a = map Str (detected_patterns acct))"
    unfolding pat_sim_def by blast
  with k show ?thesis by simp
qed

lemma pat_sim_Some:
  assumes sim: "pat_sim h sm pm" and k: "pm k = Some a"
  shows "a < length h \<and> (\<exists>acct. sm k = Some acct \<and> h ! a = map Str (detected_patterns acct))"
proof -
  from sim have "case pm k of
      None \<Rightarrow> sm k = None
    | Some a \<Rightarrow> a < length h \<and>
        (\<exists>acct. sm k = Some acct \<and> h ! a = map Str (detected_patterns acct))"
    unfolding pat_sim_def by blast
  with k show ?thesis by simp
qed

lemma nth_extends: "take n h' = h \<Longrightarrow> a < n \<Longrightarrow> h' ! a = h ! a"
proof -
  assume t: "take n h' = h" and a: "a < n"
  from a have "take n h' ! a = h' ! a" by (rule nth_take)
  with t show ?thesis by simp
qed

lemma pat_sim_extend:
  assumes sim: "pat_sim h sm pm" and len: "length h \<le> length h1"
    and ext: "take (length h) h1 = h"
  shows "pat_sim h1 sm pm"
  unfolding pat_sim_def
proof
  fix k
  from sim have *: "case pm k of
      None \<Rightarrow> sm k = None
    | Some a \<Rightarrow> a < length h \<and>
        (\<exists>acct. sm k = Some acct \<and> h ! a = map Str (detected_patterns acct))"
    unfolding pat_sim_def by blast
  show "case pm k of
      None \<Rightarrow> sm k = None
    | Some a \<Rightarrow> a < length h1 \<and>
        (\<exists>acct. sm k = Some acct \<and> h1 ! a = map Str (detected_patterns acct))"
  proof (cases "pm k")
    case None
    with * show ?thesis by simp
  next
    case (Some a)
    with * obtain acct where a: "a < length h" "sm k = Some acct"
      "h ! a = map Str (detected_patterns acct)"
      by auto
    from a(1) have "take (length h) h1 ! a = h1 ! a" by (rule nth_take)
    with ext a len Some show ?thesis by simp
  qed
qed

lemma mapNode_st_sim:
  assumes csim: "conn_sim n mp cm h0" and psim: "pat_sim h0 sm pm"
    and ext: "length h0 \<le> length h" "take (length h0) h = h0"
    and step: "mapNode_st pm cm h node = (h', r)"
  shows "connections_ref r < length h' \<and> patterns_ref r < length h' \<and>
         h' ! connections_ref r = map Conn (conns_at mp (node_id node)) \<and>
         h' ! patterns_ref r
           = map Str (case sm (node_id node) of Some a \<Rightarrow> detected_patterns a | None \<Rightarrow> [])"
proof -
  have old: "h ! a = h0 ! a" if "a < length h0" for a
    using ext(2) that by (rule nth_extends)
  obtain h1 c where 1: "(case cm (node_id node) of Some a \<Rightarrow> (h, a) | None \<Rightarrow> alloc h) = (h1, c)"
    by (cases "case cm (node_id node) of Some a \<Rightarrow> (h, a) | None \<Rightarrow> alloc h")
  obtain h2 p where 2: "(case pm (node_id node) of Some a \<Rightarrow> (h1, a) | None \<Rightarrow> alloc h1) = (h2, p)"
    by (cases "case pm (node_id node) of Some a \<Rightarrow> (h1, a) | None \<Rightarrow> alloc h1")
  from step 1 2 have r: "h' = h2" "connections_ref r = c" "patterns_ref r = p"
    by (auto simp: mapNode_st_def)
  have c: "c < length h1 \<and> h1 ! c = map Conn (conns_at mp (node_id node)) \<and>
           length h \<le> length h1 \<and> take (length h) h1 = h"
  proof (cases "cm (node_id node)")
    case None
    from conn_sim_None [OF csim None] have "conns_at mp (node_id node) = []"
      by (simp add: conns_at_def)
    moreover from 1 None have "h1 = h @ [[]]" "c = length h"
      by (simp_all add: alloc_def)
    ultimately show ?thesis by simp
  next
    case (Some a)
    from conn_sim_Some [OF csim Some] obtain cs where a: "a < length h0" "mp (node_id node) = Some cs"
      "h0 ! a = map Conn cs"
      by auto
    from 1 Some have "h1 = h" "c = a" by simp_all
    with a old [of a] ext(1) show ?thesis
      by (simp add: conns_at_def)
  qed
  have p: "p < length h2 \<and>
           h2 ! p = map Str (case sm (node_id node) of Some a \<Rightarrow> detected_patterns a | None \<Rightarrow> []) \<and>
           length h1 \<le> length h2 \<and> take (length h1) h2 = h1"
  proof (cases "pm (node_id node)")
    case None
    from pat_sim_None [OF psim None] have "sm (node_id node) = None" .
    moreover from 2 None have "h2 = h1 @ [[]]" "p = length h1"
      by (simp_all add: alloc_def)
    ultimately show ?thesis by simp
  next
    case (Some a)
    from pat_sim_Some [OF psim Some] obtain acct where a: "a < length h0"
      "sm (node_id node) = Some acct" "h0 ! a = map Str (detected_patterns acct)"
      by auto
    from a(1) ext(1) have ah: "a < length h" by simp
    from c have "take (length h) h1 = h" by simp
    from this ah have "h1 ! a = h ! a" by (rule nth_extends)
    moreover from 2 Some have "h2 = h1" "p = a" by simp_all
    ultimately show ?thesis
      using a old [of a] ah c by simp
  qed
  from p have "take (length h1) h2 = h1" by simp
  moreover from c have "c < length h1" by simp
  ultimately have "h2 ! c = h1 ! c" by (rule nth_extends)
  with c p r show ?thesis
    by simp
qed

lemma mapNodes_st_sim:
  assumes csim: "conn_sim n mp cm h0" and psim: "pat_sim h0 sm pm"
    and ext: "length h0 \<le> length h" "take (length h0) h = h0"
    and step: "mapNodes_st pm cm h ns = (h', rs)"
  shows "map (\<lambda>r. h' ! connections_ref r) rs
           = map (\<lambda>node. map Conn (conns_at mp (node_id node))) ns \<and>
         map (\<lambda>r. h' ! patterns_ref r) rs
           = map (\<lambda>node. map Str (case sm (node_id node) of
                                      Some a \<Rightarrow> detected_patterns a | None \<Rightarrow> [])) ns"
  using ext step
proof (induction ns arbitrary: h rs)
  case Nil
  then show ?case by auto
next
  case (Cons node ns)
  obtain h1 r where 1: "mapNode_st pm cm h node = (h1, r)"
    by (cases "mapNode_st pm cm h node")
  obtain h2 rs' where "mapNodes_st pm cm h1 ns = (h2, rs')"
    by (cases "mapNodes_st pm cm h1 ns")
  with Cons.prems(3) 1 have 2: "mapNodes_st pm cm h1 ns = (h', rs')" and rs: "rs = r # rs'"
    by simp_all
  from mapNode_st_frame [OF 1, of "length h"]
  have h1: "take (length h) h1 = h" "length h \<le> length h1" by simp_all
  have ext1: "length h0 \<le> length h1" "take (length h0) h1 = h0"
  proof -
    show "length h0 \<le> length h1" using h1(2) Cons.prems(1) by simp
    have "take (length h0) (take (length h) h1) = take (length h0) h1"
      using Cons.prems(1) by (simp add: min_def)
    with h1(1) Cons.prems(2) show "take (length h0) h1 = h0" by simp
  qed
  from mapNode_st_sim [OF csim psim Cons.prems(1,2) 1]
  have r: "connections_ref r < length h1" "patterns_ref r < length h1"
    "h1 ! connections_ref r = map Conn (conns_at mp (node_id node))"
    "h1 ! patterns_ref r
       = map Str (case sm (node_id node) of Some a \<Rightarrow> detected_patterns a | None \<Rightarrow> [])"
    by simp_all
  from mapNodes_st_frame [OF 2, of "length h1"] have "take (length h1) h' = h1"
    by simp
  then have "h' ! a = h1 ! a" if "a < length h1" for a
    using that by (rule nth_extends)
  with r have "h' ! connections_ref r = map Conn (conns_at mp (node_id node))"
    "h' ! patterns_ref r
       = map Str (case sm (node_id node) of Some a \<Rightarrow> detected_patterns a | None \<Rightarrow> [])"
    by simp_all
  with Cons.IH [OF ext1 2] show ?case
    by (simp add: rs)
qed

lemma mapNode_patterns:
  "patterns (mapNode sm cm rm rnd node)
     = (case sm (node_id node) of Some a \<Rightarrow> detected_patterns a | None \<Rightarrow> [])"
  by (simp add: mapNode_def Let_def)

lemma map_enumerate_mapNode_fields:
  "map (\<lambda>a. f (connections a) (patterns a))
     (map (\<lambda>(i, node). mapNode sm cm rm (rnd i) node) (enumerate n ns))
   = map (\<lambda>node. f (conns_at cm (node_id node))
            (case sm (node_id node) of Some a \<Rightarrow> detected_patterns a | None \<Rightarrow> [])) ns"
  by (induction ns arbitrary: n) (simp_all add: mapNode_connections mapNode_patterns)

lemma store_model_agrees:
  assumes st: "mapApiToAccounts_st h response refs = Inr (h', account_refs)"
    and pure: "mapApiToAccounts random response = Inr accounts"
    and sa: "suspicious_accounts response = Some sas"
    and wf: "refs_hold h sas (detected_patterns_refs refs)"
  shows "map (\<lambda>r. h' ! connections_ref r) account_refs
           = map (\<lambda>a. map Conn (connections a)) accounts \<and>
         map (\<lambda>r. h' ! patterns_ref r) account_refs
           = map (\<lambda>a. map Str (patterns a)) accounts"
proof -
  from st sa obtain g :: ApiGraph and rings cm h1 where
    g: "graph response = Some g" and rings: "fraud_rings response = Some rings" and
    cm: "connectionsMapOf_st h (edges g) = (cm, h1)" and
    ns: "mapNodes_st (accountRefMapOf sas (detected_patterns_refs refs)) cm h1 (nodes g)
           = (h', account_refs)"
    by (auto simp: mapApiToAccounts_st_def Let_def split: option.splits prod.splits)
  from pure sa g rings have accounts: "accounts =
      map (\<lambda>(i, node). mapNode (accountScoreMapOf sas) (connectionsMapOf (edges g))
             (nodeRingMapOf rings) (random i) node) (enumerate 0 (nodes g))"
    by (simp add: mapApiToAccounts_def Let_def)
  from connectionsMapOf_st_sim [OF cm]
  have csim: "conn_sim (length h) (connectionsMapOf (edges g)) cm h1" and len: "length h \<le> length h1"
    by simp_all
  from cm have "foldl addEdge_st (Map.empty, h) (edges g) = (cm, h1)"
    by (simp add: connectionsMapOf_st_def)
  from foldl_addEdge_st_frame [OF this, of "length h"] have "take (length h) h1 = h"
    by (simp add: fresh_from_def)
  then have psim: "pat_sim h1 (accountScoreMapOf sas)
      (accountRefMapOf sas (detected_patterns_refs refs))"
    using pat_sim_extend [OF accountRefMapOf_sim [OF wf] len] by simp
  have "length h1 \<le> length h1" "take (length h1) h1 = h1" by simp_all
  from mapNodes_st_sim [OF csim psim this ns]
  have st_c: "map (\<lambda>r. h' ! connections_ref r) account_refs
      = map (\<lambda>node. map Conn (conns_at (connectionsMapOf (edges g)) (node_id node))) (nodes g)"
    and st_p: "map (\<lambda>r. h' ! patterns_ref r) account_refs
      = map (\<lambda>node. map Str (case accountScoreMapOf sas (node_id node) of
                               Some a \<Rightarrow> detected_patterns a | None \<Rightarrow> [])) (nodes g)"
    by simp_all
  have "map (\<lambda>a. map Conn (connections a)) accounts
      = map (\<lambda>node. map Conn (conns_at (connectionsMapOf (edges g)) (node_id node))) (nodes g)"
    unfolding accounts by (rule map_enumerate_mapNode_fields [where f = "\<lambda>c p. map Conn c"])
  moreover have "map (\<lambda>a. map Str (patterns a)) accounts
      = map (\<lambda>node. map Str (case accountScoreMapOf sas (node_id node) of
                               Some a \<Rightarrow> detected_patterns a | None \<Rightarrow> [])) (nodes g)"
    unfolding accounts by (rule map_enumerate_mapNode_fields [where f = "\<lambda>c p. map Str p"])
  ultimately show ?thesis
    using st_c st_p by simp
qed

text \<open>
  C10. The mappers do not write to what they are given. \<open>mapApiToAccounts\<close> leaves
  every cell of the store that exists when it is called as it is, whatever the
  response and wherever its arrays are: it writes to the cells that it adds. The
  store is the same after \<open>mapApiToRings\<close> and after \<open>mapApiToTransactions\<close>. So the
  arrays of the stored response, which the export serializes later, hold what the
  engine returned.
\<close>

theorem mappers_leave_store:
  "(\<forall>h' accounts. mapApiToAccounts_st h response refs = Inr (h', accounts) \<longrightarrow>
      length h \<le> length h' \<and> take (length h) h' = h) \<and>
   (\<forall>h' rings. mapApiToRings_st h response refs = Inr (h', rings) \<longrightarrow> h' = h) \<and>
   (\<forall>h'. mapApiToTransactions_st h response = Inr h' \<longrightarrow> h' = h)"
proof (intro conjI allI impI)
  fix h' accounts
  assume a: "mapApiToAccounts_st h response refs = Inr (h', accounts)"
  then obtain sas and g :: ApiGraph and cm h1 where
    cm: "connectionsMapOf_st h (edges g) = (cm, h1)" and
    ns: "mapNodes_st (accountRefMapOf sas (detected_patterns_refs refs)) cm h1 (nodes g)
           = (h', accounts)"
    by (auto simp: mapApiToAccounts_st_def Let_def split: option.splits prod.splits)
  from cm have "foldl addEdge_st (Map.empty, h) (edges g) = (cm, h1)"
    by (simp add: connectionsMapOf_st_def)
  from foldl_addEdge_st_frame [OF this, of "length h"]
  have "take (length h) h1 = h" "length h \<le> length h1"
    by (simp_all add: fresh_from_def)
  with mapNodes_st_frame [OF ns, of "length h"]
  show "length h \<le> length h'" and "take (length h) h' = h"
    by simp_all
next
  fix h' rings
  assume "mapApiToRings_st h response refs = Inr (h', rings)"
  then show "h' = h"
    by (auto simp: mapApiToRings_st_def split: option.splits)
next
  fix h'
  assume "mapApiToTransactions_st h response = Inr h'"
  then show "h' = h"
    by (auto simp: mapApiToTransactions_st_def split: option.splits)
qed

theorem mappers_leave_store_witness:
  "mapApiToAccounts_st example_store example_response example_refs
     = Inr (example_store @
              [[Conn \<lparr>targetId = ''B'', direction = DirOut, amount = 1000\<rparr>],
               [Conn \<lparr>targetId = ''A'', direction = DirIn, amount = 1000\<rparr>], [], []],
            [\<lparr>patterns_ref = 4, connections_ref = 2\<rparr>,
             \<lparr>patterns_ref = 5, connections_ref = 3\<rparr>]) \<and>
   take (length example_store)
     (example_store @
        [[Conn \<lparr>targetId = ''B'', direction = DirOut, amount = 1000\<rparr>],
         [Conn \<lparr>targetId = ''A'', direction = DirIn, amount = 1000\<rparr>], [], []])
     = example_store \<and>
   mapApiToRings_st example_store example_response example_refs = Inr (example_store, [0, 1])"
proof -
  have run: "mapApiToAccounts_st example_store example_response example_refs
     = Inr (example_store @
              [[Conn \<lparr>targetId = ''B'', direction = DirOut, amount = 1000\<rparr>],
               [Conn \<lparr>targetId = ''A'', direction = DirIn, amount = 1000\<rparr>], [], []],
            [\<lparr>patterns_ref = 4, connections_ref = 2\<rparr>,
             \<lparr>patterns_ref = 5, connections_ref = 3\<rparr>])"
    by (simp add: mapApiToAccounts_st_def connectionsMapOf_st_def addEdge_st_def
        pushConnection_st_def alloc_def push_def accountRefMapOf_def mapNode_st_def
        example_store_def example_refs_def example_defs Let_def)
  have rings: "mapApiToRings_st example_store example_response example_refs
     = Inr (example_store, [0, 1])"
    by (simp add: mapApiToRings_st_def example_refs_def example_defs)
  from mappers_leave_store [of example_store example_response example_refs] run
  have "take (length example_store)
     (example_store @
        [[Conn \<lparr>targetId = ''B'', direction = DirOut, amount = 1000\<rparr>],
         [Conn \<lparr>targetId = ''A'', direction = DirIn, amount = 1000\<rparr>], [], []])
     = example_store"
    by blast
  with run rings show ?thesis
    by simp
qed

end
